theory Spec2Isabelle
  imports Complex_Main "HOL-Library.Log_Nat" "HOL-Library.Multiset"
begin

section \<open>JavaScript values\<close>

text \<open>
  The server (server.js) handles JSON request bodies. A JavaScript Number is an IEEE 754
  binary64 value: not-a-number, the two infinities, or a finite value, kept here as the
  rational it denotes. The two zeros are identified: every operation the server applies to
  a number (truthiness, \<open>isNaN\<close>, \<open><= 0\<close>, multiplication by 100, \<open>Math.round\<close>) treats
  them alike.
\<close>

datatype number = NaN | PosInf | NegInf | Fin rat

datatype jsval =
    JUndefined
  | JNull
  | JBool bool
  | JNum number
  | JStr string
  | JArr "jsval list"
  | JObj "(string \<times> jsval) list"

text \<open>An exception is kept as its message.\<close>

type_synonym error = string

text \<open>\<open>!v\<close> is \<open>\<not> truthy v\<close>: undefined, null, false, 0, NaN and the empty string are falsy.\<close>

fun truthy :: "jsval \<Rightarrow> bool" where
  "truthy JUndefined = False"
| "truthy JNull = False"
| "truthy (JBool b) = b"
| "truthy (JNum n) = (n \<noteq> NaN \<and> n \<noteq> Fin 0)"
| "truthy (JStr s) = (s \<noteq> [])"
| "truthy (JArr xs) = True"
| "truthy (JObj kvs) = True"

text \<open>\<open>typeof v === 'string'\<close>\<close>

fun is_string :: "jsval \<Rightarrow> bool" where
  "is_string (JStr s) = True"
| "is_string v = False"

text \<open>
  Reading the property \<open>k\<close> of \<open>v\<close>, for the property names the server reads
  (\<open>donationAmount\<close>, \<open>email\<close>, \<open>type\<close>, \<open>data\<close>, \<open>object\<close>, \<open>id\<close>, \<open>username\<close>, ...), none
  of which is inherited from a prototype: on undefined and null it throws a TypeError; on
  an object built by \<open>JSON.parse\<close> it is the last binding of the key, or undefined; on any
  other value it is undefined.
\<close>

fun js_prop :: "jsval \<Rightarrow> string \<Rightarrow> jsval" where
  "js_prop (JObj kvs) k = (case map_of (rev kvs) k of None \<Rightarrow> JUndefined | Some v \<Rightarrow> v)"
| "js_prop v k = JUndefined"

definition get_prop :: "jsval \<Rightarrow> string \<Rightarrow> error + jsval" where
  "get_prop v k =
     (if v = JUndefined \<or> v = JNull then Inl ''TypeError: Cannot read properties''
      else Inr (js_prop v k))"

text \<open>\<open>a || null\<close>\<close>

definition or_null :: "jsval \<Rightarrow> jsval" where
  "or_null v = (if truthy v then v else JNull)"

section \<open>Binary64 arithmetic\<close>

definition pow2 :: "int \<Rightarrow> rat" where
  "pow2 e = (if 0 \<le> e then 2 ^ nat e else 1 / 2 ^ nat (- e))"

text \<open>\<open>ilog2 a\<close> is \<open>\<lfloor>log\<^sub>2 a\<rfloor>\<close> for a positive rational \<open>a\<close>.\<close>

definition ilog2 :: "rat \<Rightarrow> int" where
  "ilog2 a = (if 1 \<le> a then bitlen \<lfloor>a\<rfloor> - 1 else - bitlen (\<lceil>1 / a\<rceil> - 1))"

definition round_half_even :: "rat \<Rightarrow> int" where
  "round_half_even x =
     (let f = \<lfloor>x\<rfloor>; r = x - of_int f
      in if r < 1 / 2 then f else if 1 / 2 < r then f + 1 else if even f then f else f + 1)"

text \<open>
  Rounding a rational to the nearest binary64 value, ties to even: 53 significant bits, the
  exponent of the last bit no smaller than -1074 (subnormal range), overflow to infinity.
\<close>

definition round_double :: "rat \<Rightarrow> number" where
  "round_double q =
     (if q = 0 then Fin 0
      else
        let a = \<bar>q\<bar>;
            e = max (ilog2 a - 52) (- 1074);
            m = round_half_even (a / pow2 e);
            r = of_int m * pow2 e
        in if pow2 1024 \<le> r then (if 0 < q then PosInf else NegInf)
           else Fin (if 0 < q then r else - r))"

text \<open>The product \<open>x * y\<close> of two Numbers.\<close>

fun number_mul :: "number \<Rightarrow> number \<Rightarrow> number" where
  "number_mul NaN y = NaN"
| "number_mul x NaN = NaN"
| "number_mul (Fin a) (Fin b) = round_double (a * b)"
| "number_mul (Fin a) PosInf = (if a = 0 then NaN else if 0 < a then PosInf else NegInf)"
| "number_mul (Fin a) NegInf = (if a = 0 then NaN else if 0 < a then NegInf else PosInf)"
| "number_mul PosInf (Fin b) = (if b = 0 then NaN else if 0 < b then PosInf else NegInf)"
| "number_mul NegInf (Fin b) = (if b = 0 then NaN else if 0 < b then NegInf else PosInf)"
| "number_mul PosInf PosInf = PosInf"
| "number_mul PosInf NegInf = NegInf"
| "number_mul NegInf PosInf = NegInf"
| "number_mul NegInf NegInf = PosInf"

text \<open>
  \<open>Math.round\<close>: the integer closest to the argument, the larger one of two equally close
  integers; not-a-number and the infinities are returned as they are.
\<close>

fun Math_round :: "number \<Rightarrow> number" where
  "Math_round (Fin x) = Fin (of_int \<lfloor>x + 1 / 2\<rfloor>)"
| "Math_round n = n"

fun isNaN :: "number \<Rightarrow> bool" where
  "isNaN NaN = True"
| "isNaN n = False"

text \<open>\<open>x <= 0\<close>\<close>

fun le_zero :: "number \<Rightarrow> bool" where
  "le_zero NaN = False"
| "le_zero PosInf = False"
| "le_zero NegInf = True"
| "le_zero (Fin x) = (x \<le> 0)"

section \<open>The store\<close>

text \<open>
  The two tables of database.sqlite. The columns of a donation that are bound from request
  fields and never compared keep the value that was bound; the identifier and the status
  of a payment intent are the processor's strings. \<open>created_at\<close> is the store's clock
  reading at the insertion. \<open>username TEXT UNIQUE\<close> holds the text of the value that was
  bound (\<open>None\<close> for NULL): the number 123 is stored as the text \<open>123\<close>.
\<close>

record donation =
  donation_id :: nat
  donation_amount :: number
  email :: jsval
  first_name :: jsval
  last_name :: jsval
  card_name :: jsval
  country :: jsval
  postal_code :: jsval
  payment_intent_id :: string
  payment_intent_status :: string
  created_at :: nat

record admin_user =
  admin_id :: nat
  username :: "string option"
  password :: string

record database =
  donations :: "donation list"
  donations_seq :: nat
  admin_users :: "admin_user list"
  admin_users_seq :: nat

text \<open>The SQL statements of server.js, with their parameters.\<close>

datatype db_stmt =
    InsertDonation number jsval jsval jsval jsval jsval jsval string string
  | UpdateStatusByIntent string jsval
  | SelectDonations
  | UpdateStatusById string nat
  | CountAdmins
  | SelectAdmin jsval
  | InsertAdmin jsval string

text \<open>The processor's answer to \<open>paymentIntents.create\<close>.\<close>

record payment_intent =
  pi_id :: string
  client_secret :: string

text \<open>Every call that leaves the process is recorded, in order.\<close>

datatype effect =
    StripeCreate number jsval
  | StripeRetrieve string
  | Db db_stmt

record world =
  db :: database
  trace :: "effect list"

text \<open>
  What the server does not decide: the runtime's conversion of strings and objects to
  numbers, the processor's answers, which statements the store fails, the text the
  database driver binds for a parameter that is not a string, the store's clock, the
  hash bcrypt computes for a string and whether a string matches a hash, the check of a
  signature header against a payload, what \<open>JSON.parse\<close> makes of a value that is not an
  object, and the message of the exception it throws for an object.
\<close>

record env =
  string_to_number :: "string \<Rightarrow> number"
  object_to_number :: "jsval \<Rightarrow> error + number"
  stripe_create :: "number \<Rightarrow> jsval \<Rightarrow> error + payment_intent"
  stripe_retrieve :: "string \<Rightarrow> error + string"
  db_fails :: "db_stmt \<Rightarrow> bool"
  param_text :: "jsval \<Rightarrow> string option"
  now :: nat
  hash_string :: "string \<Rightarrow> string"
  compare_string :: "string \<Rightarrow> string \<Rightarrow> bool"
  webhook_secret :: "string option"
  verify_header :: "jsval \<Rightarrow> string option \<Rightarrow> string \<Rightarrow> error option"
  json_parse :: "jsval \<Rightarrow> error + jsval"
  json_parse_error :: "jsval \<Rightarrow> error"

text \<open>\<open>Number(v)\<close>\<close>

fun Number_js :: "env \<Rightarrow> jsval \<Rightarrow> error + number" where
  "Number_js rt JUndefined = Inr NaN"
| "Number_js rt JNull = Inr (Fin 0)"
| "Number_js rt (JBool b) = Inr (Fin (if b then 1 else 0))"
| "Number_js rt (JNum n) = Inr n"
| "Number_js rt (JStr s) = Inr (string_to_number rt s)"
| "Number_js rt v = object_to_number rt v"

subsection \<open>Statements\<close>

definition record_effect :: "effect \<Rightarrow> world \<Rightarrow> world" where
  "record_effect x w = w\<lparr>trace := trace w @ [x]\<rparr>"

definition db_error :: error where
  "db_error = ''SQLITE_ERROR''"

text \<open>
  The text of a parameter in a column of type TEXT, as it is stored by an INSERT and as it
  is compared in \<open>WHERE payment_intent_id = ?\<close> and \<open>WHERE username = ?\<close>: a string as it
  is, any other value as the driver binds it and the column's affinity converts it
  (\<open>None\<close> for NULL, which equals nothing).
\<close>

definition bound_text :: "env \<Rightarrow> jsval \<Rightarrow> string option" where
  "bound_text rt p = (case p of JStr s \<Rightarrow> Some s | _ \<Rightarrow> param_text rt p)"

text \<open>
  A statement that changes the store. The \<open>UNIQUE\<close> constraint on \<open>username\<close> rejects a
  second row with the same text; it admits any number of rows with NULL.
\<close>

fun exec :: "env \<Rightarrow> db_stmt \<Rightarrow> database \<Rightarrow> error + database" where
  "exec rt (InsertDonation amount em fname lname cname co pc pid st) d =
     Inr (d\<lparr>donations := donations d @
              [\<lparr>donation_id = Suc (donations_seq d), donation_amount = amount, email = em,
                first_name = fname, last_name = lname, card_name = cname, country = co,
                postal_code = pc, payment_intent_id = pid, payment_intent_status = st,
                created_at = now rt\<rparr>],
            donations_seq := Suc (donations_seq d)\<rparr>)"
| "exec rt (UpdateStatusByIntent st p) d =
     Inr (d\<lparr>donations :=
              map (\<lambda>r. if Some (payment_intent_id r) = bound_text rt p
                        then r\<lparr>payment_intent_status := st\<rparr> else r) (donations d)\<rparr>)"
| "exec rt (UpdateStatusById st i) d =
     Inr (d\<lparr>donations :=
              map (\<lambda>r. if donation_id r = i then r\<lparr>payment_intent_status := st\<rparr> else r)
                (donations d)\<rparr>)"
| "exec rt (InsertAdmin u h) d =
     (if bound_text rt u \<noteq> None \<and> bound_text rt u \<in> username ` set (admin_users d)
      then Inl ''SQLITE_CONSTRAINT: UNIQUE''
      else Inr (d\<lparr>admin_users := admin_users d @
                     [\<lparr>admin_id = Suc (admin_users_seq d), username = bound_text rt u,
                       password = h\<rparr>],
                   admin_users_seq := Suc (admin_users_seq d)\<rparr>))"
| "exec rt s d = Inr d"

text \<open>\<open>dbRun\<close>: the promise is rejected (\<open>Some\<close>) or fulfilled (\<open>None\<close>).\<close>

definition dbRun :: "env \<Rightarrow> db_stmt \<Rightarrow> world \<Rightarrow> error option \<times> world" where
  "dbRun rt s w =
     (let w1 = record_effect (Db s) w
      in if db_fails rt s then (Some db_error, w1)
         else (case exec rt s (db w1) of
                 Inl e \<Rightarrow> (Some e, w1)
               | Inr d \<Rightarrow> (None, w1\<lparr>db := d\<rparr>)))"

section \<open>Responses\<close>

datatype body = Json jsval | Text string | Donations "donation list"

record response =
  status :: nat
  content :: body

definition json_error :: "nat \<Rightarrow> string \<Rightarrow> response" where
  "json_error code msg = \<lparr>status = code, content = Json (JObj [(''error'', JStr msg)])\<rparr>"

definition json_ok :: "jsval \<Rightarrow> response" where
  "json_ok v = \<lparr>status = 200, content = Json v\<rparr>"

text \<open>The catch-all error handler, reached by \<open>next(err)\<close> and by an exception thrown in a
  synchronous handler.\<close>

definition error_handler :: "error \<Rightarrow> response" where
  "error_handler err = json_error 500 ''An internal server error occurred.''"

section \<open>POST /create-payment-intent\<close>

definition amountCents :: "number \<Rightarrow> number" where
  "amountCents n = Math_round (number_mul n (Fin 100))"

definition create_payment_intent :: "env \<Rightarrow> jsval \<Rightarrow> world \<Rightarrow> response \<times> world" where
  "create_payment_intent rt req_body w =
     (case get_prop req_body ''donationAmount'' of
        Inl err \<Rightarrow> (error_handler err, w)
      | Inr donationAmount \<Rightarrow>
         (let em = js_prop req_body ''email'';
              firstName = js_prop req_body ''firstName'';
              lastName = js_prop req_body ''lastName'';
              cardName = js_prop req_body ''cardName'';
              co = js_prop req_body ''country'';
              postalCode = js_prop req_body ''postalCode''
          in
          if \<not> truthy donationAmount \<or> \<not> truthy em
          then (json_error 400 ''Donation amount and email are required.'', w)
          else
           (case Number_js rt donationAmount of
              Inl err \<Rightarrow> (error_handler err, w)
            | Inr n \<Rightarrow>
               (let cents = amountCents n in
                if isNaN cents \<or> le_zero cents
                then (json_error 400 ''Invalid donation amount.'', w)
                else
                 (let w1 = record_effect (StripeCreate cents em) w in
                  (case stripe_create rt cents em of
                     Inl err \<Rightarrow> (error_handler err, w1)
                   | Inr paymentIntent \<Rightarrow>
                      (case dbRun rt
                              (InsertDonation cents em (or_null firstName) (or_null lastName)
                                 (or_null cardName) (or_null co) (or_null postalCode)
                                 (pi_id paymentIntent) ''pending'') w1 of
                         (Some err, w2) \<Rightarrow> (error_handler err, w2)
                       | (None, w2) \<Rightarrow>
                           (json_ok (JObj [(''clientSecret'',
                                            JStr (client_secret paymentIntent))]), w2))))))))"

section \<open>POST /webhook\<close>

text \<open>
  \<open>STRIPE_WEBHOOK_SECRET = process.env.STRIPE_WEBHOOK_SECRET || null\<close>: an unset or empty
  variable gives null.
\<close>

definition STRIPE_WEBHOOK_SECRET :: "env \<Rightarrow> string option" where
  "STRIPE_WEBHOOK_SECRET rt =
     (case webhook_secret rt of
        None \<Rightarrow> None
      | Some s \<Rightarrow> if s = [] then None else Some s)"

text \<open>
  \<open>app.use(express.json())\<close> runs before every route, so the body of a request of type
  \<open>application/json\<close> has been parsed when the handler of \<open>/webhook\<close> is reached, and the
  \<open>bodyParser.raw\<close> of the route finds nothing left to read: \<open>req.body\<close> is the parsed
  value, an object or an array, never the text that was sent.

  \<open>JSON.parse(v)\<close> converts \<open>v\<close> to a string first. An object built by \<open>JSON.parse\<close>
  converts to \<open>[object Object]\<close>, or not at all when it has a \<open>toString\<close> of its own:
  either way an exception is thrown.
\<close>

definition JSON_parse :: "env \<Rightarrow> jsval \<Rightarrow> error + jsval" where
  "JSON_parse rt v =
     (case v of
        JObj kvs \<Rightarrow> Inl (json_parse_error rt v)
      | _ \<Rightarrow> json_parse rt v)"

text \<open>
  \<open>stripeInstance.webhooks.constructEvent\<close> checks the signature header against the payload
  and then returns \<open>JSON.parse(payload)\<close>.
\<close>

definition constructEvent :: "env \<Rightarrow> jsval \<Rightarrow> string option \<Rightarrow> string \<Rightarrow> error + jsval" where
  "constructEvent rt payload signature secret =
     (case verify_header rt payload signature secret of
        Some err \<Rightarrow> Inl err
      | None \<Rightarrow> JSON_parse rt payload)"

text \<open>The event: verified with the signature when a secret is set, parsed as it is otherwise.\<close>

definition webhook_event :: "env \<Rightarrow> jsval \<Rightarrow> string option \<Rightarrow> error + jsval" where
  "webhook_event rt req_body signature =
     (case STRIPE_WEBHOOK_SECRET rt of
        Some secret \<Rightarrow> constructEvent rt req_body signature secret
      | None \<Rightarrow> JSON_parse rt req_body)"

definition received :: response where
  "received = json_ok (JObj [(''received'', JBool True)])"

text \<open>
  The handler does not wait for the update: it answers at once, and the outcome of the
  statement only reaches the log. The world returned is the one after the statement has run.
\<close>

definition webhook :: "env \<Rightarrow> jsval \<Rightarrow> string option \<Rightarrow> world \<Rightarrow> response \<times> world" where
  "webhook rt req_body signature w =
     (case webhook_event rt req_body signature of
        Inl msg \<Rightarrow> (\<lparr>status = 400, content = Text (''Webhook Error: '' @ msg)\<rparr>, w)
      | Inr event \<Rightarrow>
         (case get_prop event ''type'' of
            Inl err \<Rightarrow> (error_handler err, w)
          | Inr ty \<Rightarrow>
              if ty = JStr ''payment_intent.succeeded''
              then
               (case get_prop (js_prop event ''data'') ''object'' of
                  Inl err \<Rightarrow> (error_handler err, w)
                | Inr paymentIntent \<Rightarrow>
                   (case get_prop paymentIntent ''id'' of
                      Inl err \<Rightarrow> (error_handler err, w)
                    | Inr pid \<Rightarrow>
                       (case dbRun rt (UpdateStatusByIntent ''succeeded'' pid) w of
                          (outcome, w1) \<Rightarrow> (received, w1))))
              else (received, w)))"

section \<open>Admin API\<close>

text \<open>\<open>req.session.user\<close>, when the session has one.\<close>

record session_user =
  user_id :: nat
  user_name :: "string option"

type_synonym session = "session_user option"

definition unauthorized :: response where
  "unauthorized = json_error 401 ''Unauthorized''"

text \<open>
  \<open>bcrypt.hash(data, 10)\<close> and \<open>bcrypt.compare(data, hash)\<close> reject data that is not a
  string (a JSON value is never a Buffer); for a string the first resolves to a hash and
  the second to whether the string matches the stored hash.
\<close>

definition bcrypt_hash :: "env \<Rightarrow> jsval \<Rightarrow> error + string" where
  "bcrypt_hash rt data =
     (case data of
        JStr s \<Rightarrow> Inr (hash_string rt s)
      | _ \<Rightarrow> Inl ''data must be a string or Buffer and salt must either be a salt string or a number of rounds'')"

definition bcrypt_compare :: "env \<Rightarrow> jsval \<Rightarrow> string \<Rightarrow> error + bool" where
  "bcrypt_compare rt data hash =
     (case data of
        JStr s \<Rightarrow> Inr (compare_string rt s hash)
      | _ \<Rightarrow> Inl ''data and hash must be strings'')"

text \<open>\<open>dbGet\<close> and \<open>dbAll\<close>: the three queries of the admin API.\<close>

definition dbGet_count :: "env \<Rightarrow> world \<Rightarrow> (error + nat) \<times> world" where
  "dbGet_count rt w =
     (let w1 = record_effect (Db CountAdmins) w
      in if db_fails rt CountAdmins then (Inl db_error, w1)
         else (Inr (length (admin_users (db w1))), w1))"

definition dbGet_admin :: "env \<Rightarrow> jsval \<Rightarrow> world \<Rightarrow> (error + admin_user option) \<times> world" where
  "dbGet_admin rt u w =
     (let w1 = record_effect (Db (SelectAdmin u)) w
      in if db_fails rt (SelectAdmin u) then (Inl db_error, w1)
         else (Inr (find (\<lambda>a. username a \<noteq> None \<and> username a = bound_text rt u)
                      (admin_users (db w1))), w1))"

text \<open>\<open>ORDER BY created_at DESC\<close>; rows of the same instant stay in table order.\<close>

definition order_by_created_at_desc :: "donation list \<Rightarrow> donation list" where
  "order_by_created_at_desc rows = sort_key (\<lambda>r. - int (created_at r)) rows"

definition dbAll_donations :: "env \<Rightarrow> world \<Rightarrow> (error + donation list) \<times> world" where
  "dbAll_donations rt w =
     (let w1 = record_effect (Db SelectDonations) w
      in if db_fails rt SelectDonations then (Inl db_error, w1)
         else (Inr (order_by_created_at_desc (donations (db w1))), w1))"

subsection \<open>GET /admin-api/check-setup\<close>

definition check_setup :: "env \<Rightarrow> world \<Rightarrow> response \<times> world" where
  "check_setup rt w =
     (case dbGet_count rt w of
        (Inl err, w1) \<Rightarrow> (error_handler err, w1)
      | (Inr row_count, w1) \<Rightarrow> (json_ok (JObj [(''setup'', JBool (0 < row_count))]), w1))"

subsection \<open>POST /admin-api/register\<close>

definition register :: "env \<Rightarrow> jsval \<Rightarrow> session \<Rightarrow> world \<Rightarrow> response \<times> world" where
  "register rt req_body sess w =
     (case get_prop req_body ''username'' of
        Inl err \<Rightarrow> (error_handler err, w)
      | Inr uname \<Rightarrow>
         (let pw = js_prop req_body ''password'' in
          if \<not> truthy uname \<or> \<not> truthy pw
          then (json_error 400 ''Username and password are required.'', w)
          else
           (case dbGet_count rt w of
              (Inl err, w1) \<Rightarrow> (error_handler err, w1)
            | (Inr row_count, w1) \<Rightarrow>
               (let isFirstUser = (row_count = 0) in
                if \<not> isFirstUser \<and> sess = None
                then (json_error 401
                        ''Unauthorized. Please log in as admin to add new users.'', w1)
                else
                 (case bcrypt_hash rt pw of
                    Inl err \<Rightarrow> (error_handler err, w1)
                  | Inr hash \<Rightarrow>
                     (case dbRun rt (InsertAdmin uname hash) w1 of
                        (Some err, w2) \<Rightarrow> (error_handler err, w2)
                      | (None, w2) \<Rightarrow>
                          (json_ok (JObj [(''message'',
                             JStr ''Admin user registered successfully.'')]), w2)))))))"

subsection \<open>POST /admin-api/login\<close>

definition invalid_credentials :: response where
  "invalid_credentials = json_error 401 ''Invalid credentials.''"

definition login ::
  "env \<Rightarrow> jsval \<Rightarrow> session \<Rightarrow> world \<Rightarrow> response \<times> session \<times> world" where
  "login rt req_body sess w =
     (case get_prop req_body ''username'' of
        Inl err \<Rightarrow> (error_handler err, sess, w)
      | Inr uname \<Rightarrow>
         (let pw = js_prop req_body ''password'' in
          if \<not> truthy uname \<or> \<not> truthy pw
          then (json_error 400 ''Username and password are required.'', sess, w)
          else
           (case dbGet_admin rt uname w of
              (Inl err, w1) \<Rightarrow> (error_handler err, sess, w1)
            | (Inr None, w1) \<Rightarrow> (invalid_credentials, sess, w1)
            | (Inr (Some user), w1) \<Rightarrow>
               (case bcrypt_compare rt pw (password user) of
                  Inl err \<Rightarrow> (error_handler err, sess, w1)
                | Inr isMatch \<Rightarrow>
                    if isMatch
                    then (json_ok (JObj [(''message'', JStr ''Login successful.'')]),
                          Some \<lparr>user_id = admin_id user, user_name = username user\<rparr>, w1)
                    else (invalid_credentials, sess, w1)))))"

subsection \<open>GET /admin-api/donations\<close>

text \<open>One turn of the loop over the rows that were read.\<close>

definition refresh :: "env \<Rightarrow> donation \<Rightarrow> world \<Rightarrow> donation \<times> world" where
  "refresh rt donation w =
     (if payment_intent_status donation = ''pending''
      then
       (let w1 = record_effect (StripeRetrieve (payment_intent_id donation)) w in
        (case stripe_retrieve rt (payment_intent_id donation) of
           Inl err \<Rightarrow> (donation, w1)
         | Inr st \<Rightarrow>
             if st \<noteq> payment_intent_status donation
             then
              (case dbRun rt (UpdateStatusById st (donation_id donation)) w1 of
                 (Some err, w2) \<Rightarrow> (donation, w2)
               | (None, w2) \<Rightarrow> (donation\<lparr>payment_intent_status := st\<rparr>, w2))
             else (donation, w1)))
      else (donation, w))"

fun refresh_all :: "env \<Rightarrow> donation list \<Rightarrow> world \<Rightarrow> donation list \<times> world" where
  "refresh_all rt [] w = ([], w)"
| "refresh_all rt (donation # rest) w =
     (case refresh rt donation w of
        (donation', w1) \<Rightarrow>
          (case refresh_all rt rest w1 of
             (rest', w2) \<Rightarrow> (donation' # rest', w2)))"

definition list_donations :: "env \<Rightarrow> session \<Rightarrow> world \<Rightarrow> response \<times> world" where
  "list_donations rt sess w =
     (if sess = None then (unauthorized, w)
      else
       (case dbAll_donations rt w of
          (Inl err, w1) \<Rightarrow> (error_handler err, w1)
        | (Inr rows, w1) \<Rightarrow>
           (case refresh_all rt rows w1 of
              (rows', w2) \<Rightarrow> (\<lparr>status = 200, content = Donations rows'\<rparr>, w2))))"

subsection \<open>POST /admin-api/users\<close>

definition add_user :: "env \<Rightarrow> jsval \<Rightarrow> session \<Rightarrow> world \<Rightarrow> response \<times> world" where
  "add_user rt req_body sess w =
     (if sess = None then (unauthorized, w)
      else
       (case get_prop req_body ''username'' of
          Inl err \<Rightarrow> (error_handler err, w)
        | Inr uname \<Rightarrow>
           (let pw = js_prop req_body ''password'' in
            if \<not> truthy uname \<or> \<not> truthy pw
            then (json_error 400 ''Username and password are required.'', w)
            else
             (case bcrypt_hash rt pw of
                Inl err \<Rightarrow> (error_handler err, w)
              | Inr hash \<Rightarrow>
                 (case dbRun rt (InsertAdmin uname hash) w of
                    (Some err, w1) \<Rightarrow> (error_handler err, w1)
                  | (None, w1) \<Rightarrow>
                      (json_ok (JObj [(''message'',
                         JStr ''New admin user added successfully.'')]), w1))))))"

section \<open>The invariant of the store\<close>

text \<open>
  \<open>id INTEGER PRIMARY KEY AUTOINCREMENT\<close>: the identifiers of the donations are distinct
  and none is above the last one handed out.
\<close>

definition store_ok :: "database \<Rightarrow> bool" where
  "store_ok d =
     (distinct (map donation_id (donations d))
      \<and> list_all (\<lambda>r. donation_id r \<le> donations_seq d) (donations d))"

section \<open>Amounts in a request and in the specification\<close>

text \<open>A numeric literal of a JSON body with the decimal value \<open>q\<close> is read as the nearest
  binary64 value.\<close>

definition json_number :: "rat \<Rightarrow> jsval" where
  "json_number q = JNum (round_double q)"

text \<open>What the specification says of the conversion: the amount in major units times 100,
  rounded half-up to a whole number of cents.\<close>

definition cents_half_up :: "rat \<Rightarrow> int" where
  "cents_half_up q = \<lfloor>q * 100 + 1 / 2\<rfloor>"

section \<open>The reconciliation pass, record by record\<close>

text \<open>
  What the specification says of one record, for a processor that reports the status
  \<open>upstream p\<close> of the payment intent \<open>p\<close>: a pending record whose reported status differs
  from the stored one takes the reported status; every other record stays as it is.
\<close>

definition reconcile_spec :: "(string \<Rightarrow> string) \<Rightarrow> donation \<Rightarrow> donation" where
  "reconcile_spec upstream d =
     (if payment_intent_status d = ''pending''
         \<and> upstream (payment_intent_id d) \<noteq> payment_intent_status d
      then d\<lparr>payment_intent_status := upstream (payment_intent_id d)\<rparr>
      else d)"

text \<open>The calls the specification expects for one record: a lookup for a pending record,
  followed by an update when the reported status differs.\<close>

definition effects_spec :: "(string \<Rightarrow> string) \<Rightarrow> donation \<Rightarrow> effect list" where
  "effects_spec upstream d =
     (if payment_intent_status d = ''pending''
      then StripeRetrieve (payment_intent_id d) #
           (if upstream (payment_intent_id d) \<noteq> payment_intent_status d
            then [Db (UpdateStatusById (upstream (payment_intent_id d)) (donation_id d))]
            else [])
      else [])"

text \<open>
  The same for any processor and store, failures included. \<open>wanted_status\<close> is the status
  the pass asks the store to write for a record, \<open>written_status\<close> the one the store did
  write, \<open>refreshed\<close> the record that is returned.
\<close>

definition wanted_status :: "env \<Rightarrow> donation \<Rightarrow> string option" where
  "wanted_status rt d =
     (if payment_intent_status d = ''pending''
      then (case stripe_retrieve rt (payment_intent_id d) of
              Inl err \<Rightarrow> None
            | Inr st \<Rightarrow> if st \<noteq> payment_intent_status d then Some st else None)
      else None)"

definition written_status :: "env \<Rightarrow> donation \<Rightarrow> string option" where
  "written_status rt d =
     (case wanted_status rt d of
        None \<Rightarrow> None
      | Some st \<Rightarrow> if db_fails rt (UpdateStatusById st (donation_id d)) then None else Some st)"

definition refreshed :: "env \<Rightarrow> donation \<Rightarrow> donation" where
  "refreshed rt d =
     (case written_status rt d of
        None \<Rightarrow> d
      | Some st \<Rightarrow> d\<lparr>payment_intent_status := st\<rparr>)"

definition refresh_effects :: "env \<Rightarrow> donation \<Rightarrow> effect list" where
  "refresh_effects rt d =
     (if payment_intent_status d = ''pending''
      then StripeRetrieve (payment_intent_id d) #
           (case wanted_status rt d of
              None \<Rightarrow> []
            | Some st \<Rightarrow> [Db (UpdateStatusById st (donation_id d))])
      else [])"

definition set_status :: "nat \<Rightarrow> string \<Rightarrow> donation list \<Rightarrow> donation list" where
  "set_status i st rows =
     map (\<lambda>r. if donation_id r = i then r\<lparr>payment_intent_status := st\<rparr> else r) rows"

definition store_after :: "env \<Rightarrow> donation list \<Rightarrow> donation \<Rightarrow> donation list" where
  "store_after rt rows d =
     (case written_status rt d of
        None \<Rightarrow> rows
      | Some st \<Rightarrow> set_status (donation_id d) st rows)"

text \<open>A processor whose lookups fail with \<open>err\<close> for the payment intents in \<open>K\<close>.\<close>

definition failing_lookups :: "string set \<Rightarrow> error \<Rightarrow> env \<Rightarrow> env" where
  "failing_lookups K err rt =
     rt\<lparr>stripe_retrieve := \<lambda>p. if p \<in> K then Inl err else stripe_retrieve rt p\<rparr>"

section \<open>Example values\<close>

text \<open>A processor that authorises everything, a store that never fails, and a store with
  three donations, used to run the handlers on concrete requests.\<close>

definition demo_env :: env where
  "demo_env =
     \<lparr>string_to_number = (\<lambda>s. NaN),
      object_to_number = (\<lambda>v. Inr NaN),
      stripe_create = (\<lambda>amount em. Inr \<lparr>pi_id = ''pi_4'', client_secret = ''pi_4_secret''\<rparr>),
      stripe_retrieve = (\<lambda>p. Inr (if p = ''pi_1'' then ''canceled''
                                  else if p = ''pi_2'' then ''succeeded'' else ''pending'')),
      db_fails = (\<lambda>s. False),
      param_text = (\<lambda>v. None),
      now = 40,
      hash_string = (\<lambda>s. ''hash:'' @ s),
      compare_string = (\<lambda>s h. h = ''hash:'' @ s),
      webhook_secret = None,
      verify_header = (\<lambda>payload signature secret. Some ''No signatures found''),
      json_parse = (\<lambda>v. Inl ''Unexpected token''),
      json_parse_error = (\<lambda>v. ''Unexpected token o in JSON at position 1'')\<rparr>"

definition demo_donation :: "nat \<Rightarrow> string \<Rightarrow> string \<Rightarrow> nat \<Rightarrow> donation" where
  "demo_donation i pid st t =
     \<lparr>donation_id = i, donation_amount = Fin 1000, email = JStr ''donor@example.org'',
      first_name = JNull, last_name = JNull, card_name = JNull, country = JNull,
      postal_code = JNull, payment_intent_id = pid, payment_intent_status = st,
      created_at = t\<rparr>"

definition demo_db :: database where
  "demo_db =
     \<lparr>donations = [demo_donation 1 ''pi_1'' ''succeeded'' 10,
                   demo_donation 2 ''pi_2'' ''pending'' 20,
                   demo_donation 3 ''pi_3'' ''canceled'' 30],
      donations_seq = 3,
      admin_users = [\<lparr>admin_id = 1, username = Some ''root'', password = ''hash:secret''\<rparr>],
      admin_users_seq = 1\<rparr>"

definition demo_world :: world where
  "demo_world = \<lparr>db = demo_db, trace = []\<rparr>"

definition donation_request :: "jsval \<Rightarrow> jsval" where
  "donation_request amount =
     JObj [(''donationAmount'', amount), (''email'', JStr ''donor@example.org'')]"

definition demo_event :: "string \<Rightarrow> string \<Rightarrow> jsval" where
  "demo_event ty pid =
     JObj [(''type'', JStr ty), (''data'', JObj [(''object'', JObj [(''id'', JStr pid)])])]"

text \<open>
  A body that the handler accepts when no secret is set: the array whose one element is the
  text of an event. \<open>JSON.parse\<close> converts the array to a string, which is that text, and
  reads the event from it. \<open>demo_env_parsing\<close> is the runtime of \<open>demo_env\<close> with this one
  answer of \<open>JSON.parse\<close>.
\<close>

definition event_text :: string where
  \<open>event_text = ''{"type":"payment_intent.succeeded","data":{"object":{"id":"pi_2"}}}''\<close>

definition wrapped_event :: jsval where
  "wrapped_event = JArr [JStr event_text]"

definition demo_env_parsing :: env where
  "demo_env_parsing =
     demo_env\<lparr>json_parse := \<lambda>v. if v = wrapped_event
                                   then Inr (demo_event ''payment_intent.succeeded'' ''pi_2'')
                                   else json_parse demo_env v\<rparr>"

definition credentials :: "string \<Rightarrow> string \<Rightarrow> jsval" where
  "credentials u p = JObj [(''username'', JStr u), (''password'', JStr p)]"

text \<open>A request whose password is the number 123.\<close>

definition numeric_password :: "string \<Rightarrow> jsval" where
  "numeric_password u = JObj [(''username'', JStr u), (''password'', JNum (Fin 123))]"

definition empty_world :: world where
  "empty_world =
     \<lparr>db = \<lparr>donations = [], donations_seq = 0, admin_users = [], admin_users_seq = 0\<rparr>,
      trace = []\<rparr>"

text \<open>The same store with the first donation still pending.\<close>

definition demo_world_two_pending :: world where
  "demo_world_two_pending =
     \<lparr>db = demo_db\<lparr>donations :=
                     [demo_donation 1 ''pi_1'' ''pending'' 10,
                      demo_donation 2 ''pi_2'' ''pending'' 20,
                      demo_donation 3 ''pi_3'' ''canceled'' 30]\<rparr>,
      trace = []\<rparr>"

definition demo_session :: session where
  "demo_session = Some \<lparr>user_id = 1, user_name = Some ''root''\<rparr>"

text \<open>A store that fails every statement, and one that fails every statement that writes.\<close>

definition failing_store :: "env \<Rightarrow> env" where
  "failing_store rt = rt\<lparr>db_fails := \<lambda>s. True\<rparr>"

definition failing_writes :: "env \<Rightarrow> env" where
  "failing_writes rt =
     rt\<lparr>db_fails := \<lambda>s. case s of
                            SelectDonations \<Rightarrow> False
                          | CountAdmins \<Rightarrow> False
                          | SelectAdmin u \<Rightarrow> False
                          | _ \<Rightarrow> True\<rparr>"

section \<open>Properties of the binary64 model\<close>

lemma pow2_pos: "0 < pow2 k"
  by (simp add: pow2_def)

lemma pow2_int: "pow2 (int m) = 2 ^ m"
  by (simp add: pow2_def)

lemma pow2_powi: "pow2 e = 2 powi e"
  by (simp add: pow2_def power_int_def power_one_over inverse_eq_divide)

lemma pow2_mono: "a \<le> b \<Longrightarrow> pow2 a \<le> pow2 b"
  by (simp add: pow2_powi power_int_increasing)

lemma pow2_strict_mono: "a < b \<Longrightarrow> pow2 a < pow2 b"
  by (simp add: pow2_powi power_int_strict_increasing)

lemma pow2_add: "pow2 (a + b) = pow2 a * pow2 b"
  by (simp add: pow2_powi power_int_add)

lemma pow2_less_imp: "pow2 a < pow2 b \<Longrightarrow> a < b"
  using pow2_mono [of b a] by (cases "a < b") simp_all

lemma ilog2_ge1:
  assumes "(2::rat) ^ n \<le> a" "a < 2 ^ Suc n"
  shows "ilog2 a = int n"
proof -
  have "(1::rat) \<le> 2 ^ n" by (rule one_le_power) simp
  then have a1: "1 \<le> a" using assms(1) by linarith
  have "of_int ((2::int) ^ n) \<le> a" using assms(1) by simp
  then have lo: "(2::int) ^ n \<le> \<lfloor>a\<rfloor>"
    by (simp only: le_floor_iff)
  have "a < of_int ((2::int) ^ Suc n)" using assms(2) by simp
  then have hi: "\<lfloor>a\<rfloor> < (2::int) ^ Suc n"
    by (simp only: floor_less_iff)
  have "bitlen \<lfloor>a\<rfloor> = int n + 1"
  proof (rule antisym)
    show "bitlen \<lfloor>a\<rfloor> \<le> int n + 1"
      using hi by (simp add: bitlen_le_iff_power nat_add_distrib)
    show "int n + 1 \<le> bitlen \<lfloor>a\<rfloor>"
      using lo by (simp add: bitlen_ge_iff_power nat_add_distrib)
  qed
  then show ?thesis using a1 by (simp add: ilog2_def)
qed

lemma ilog2_lt1:
  assumes "1 / (2::rat) ^ Suc n \<le> a" "a < 1 / 2 ^ n"
  shows "ilog2 a = - int (Suc n)"
proof -
  have p: "(0::rat) < 1 / 2 ^ Suc n" by simp
  have apos: "0 < a" using assms(1) p by linarith
  have "(1::rat) \<le> 2 ^ n" by (rule one_le_power) simp
  then have "1 / (2::rat) ^ n \<le> 1" by (simp add: field_simps)
  then have a1: "a < 1" using assms(2) by linarith
  have b_hi: "1 / a \<le> 2 ^ Suc n"
    using assms(1) apos by (simp add: field_simps)
  have b_lo: "2 ^ n < 1 / a"
    using assms(2) apos by (simp add: field_simps)
  have "1 / a \<le> of_int ((2::int) ^ Suc n)" using b_hi by simp
  then have "\<lceil>1 / a\<rceil> \<le> (2::int) ^ Suc n" by (simp only: ceiling_le_iff)
  then have c_hi: "\<lceil>1 / a\<rceil> - 1 < (2::int) ^ Suc n" by linarith
  have "of_int ((2::int) ^ n) < 1 / a" using b_lo by simp
  then have "(2::int) ^ n < \<lceil>1 / a\<rceil>" by (simp only: less_ceiling_iff)
  then have c_lo: "(2::int) ^ n \<le> \<lceil>1 / a\<rceil> - 1" by linarith
  have "bitlen (\<lceil>1 / a\<rceil> - 1) = int n + 1"
  proof (rule antisym)
    show "bitlen (\<lceil>1 / a\<rceil> - 1) \<le> int n + 1"
      using c_hi by (simp add: bitlen_le_iff_power nat_add_distrib)
    show "int n + 1 \<le> bitlen (\<lceil>1 / a\<rceil> - 1)"
      using c_lo by (simp add: bitlen_ge_iff_power nat_add_distrib)
  qed
  then show ?thesis using a1 by (simp add: ilog2_def)
qed

lemma ilog2_eqI:
  assumes "pow2 k \<le> a" "a < pow2 (k + 1)"
  shows "ilog2 a = k"
proof (cases "0 \<le> k")
  case True
  then obtain n where k: "k = int n" using nonneg_int_cases by blast
  have k1: "k + 1 = int (Suc n)" by (simp add: k)
  have "pow2 k = 2 ^ n" "pow2 (k + 1) = 2 ^ Suc n"
    unfolding k1 unfolding k by (rule pow2_int)+
  then show ?thesis using assms ilog2_ge1[of n a] by (simp add: k)
next
  case False
  then have "0 \<le> - k - 1" by simp
  then obtain n where "- k - 1 = int n" using nonneg_int_cases by blast
  then have k: "k = - int (Suc n)" by simp
  have n1: "nat (int n + 1) = Suc n" by simp
  have "pow2 (k + 1) = 1 / 2 ^ n" by (simp add: k pow2_def)
  moreover have "pow2 k = 1 / 2 ^ Suc n" by (simp add: k pow2_def n1)
  ultimately show ?thesis using assms ilog2_lt1[of n a] by (simp add: k)
qed

lemma ilog2_bounds:
  assumes "0 < a"
  shows "pow2 (ilog2 a) \<le> a" and "a < pow2 (ilog2 a + 1)"
proof -
  have "pow2 (ilog2 a) \<le> a \<and> a < pow2 (ilog2 a + 1)"
  proof (cases "1 \<le> a")
    case True
    define x where "x = \<lfloor>a\<rfloor>"
    define j where "j = bitlen x"
    have x1: "1 \<le> x" using True by (simp add: x_def le_floor_iff)
    then have x0: "0 < x" by simp
    have j1: "1 \<le> j"
      using x0 bitlen_nonneg [of x] bitlen_eq_zero_iff [of x] by (simp add: j_def)
    have "j = int (Suc (nat (j - 1)))" using j1 by simp
    then obtain n where n: "j = int (Suc n)" ..
    have e1: "nat (j - 1) = n" "nat j = Suc n" using n by simp_all
    have b: "2 ^ n \<le> x" "x < 2 ^ Suc n"
      using bitlen_bounds [OF x0] unfolding j_def [symmetric] e1 by simp_all
    have l: "ilog2 a = int n" using True by (simp add: ilog2_def x_def [symmetric] j_def [symmetric] n)
    have f1: "(of_int x :: rat) \<le> a" by (simp add: x_def)
    have f2: "(2::rat) ^ n \<le> of_int x"
      using b(1) by (metis of_int_le_iff of_int_numeral of_int_power)
    from f2 f1 have "(2::rat) ^ n \<le> a" by (rule order_trans)
    then have lo: "pow2 (int n) \<le> a" by (simp only: pow2_int)
    have "a < of_int x + 1" unfolding x_def using floor_correct [of a] by simp
    moreover have "x + 1 \<le> 2 ^ Suc n" using b(2) by simp
    then have "(of_int (x + 1) :: rat) \<le> of_int (2 ^ Suc n)" by (simp only: of_int_le_iff)
    then have "(of_int x :: rat) + 1 \<le> 2 ^ Suc n" by simp
    ultimately have "a < 2 ^ Suc n" by linarith
    moreover have "int n + 1 = int (Suc n)" by simp
    ultimately have hi: "a < pow2 (int n + 1)" by (simp only: pow2_int)
    show ?thesis using lo hi by (simp add: l)
  next
    case False
    then have a1: "a < 1" by simp
    define y where "y = \<lceil>1 / a\<rceil> - 1"
    define j where "j = bitlen y"
    have inv: "1 < 1 / a" using assms a1 by (simp add: field_simps)
    then have "1 < \<lceil>1 / a\<rceil>" by (simp add: less_ceiling_iff)
    then have y0: "0 < y" by (simp add: y_def)
    have j1: "1 \<le> j"
      using y0 bitlen_nonneg [of y] bitlen_eq_zero_iff [of y] by (simp add: j_def)
    have "j = int (Suc (nat (j - 1)))" using j1 by simp
    then obtain n where n: "j = int (Suc n)" ..
    have e1: "nat (j - 1) = n" "nat j = Suc n" using n by simp_all
    have b: "2 ^ n \<le> y" "y < 2 ^ Suc n"
      using bitlen_bounds [OF y0] unfolding j_def [symmetric] e1 by simp_all
    have l: "ilog2 a = - int (Suc n)"
      using a1 by (simp add: ilog2_def y_def [symmetric] j_def [symmetric] n)
    have g1: "(of_int y :: rat) < 1 / a"
      unfolding y_def using ceiling_correct [of "1 / a"] by simp
    have g2: "(2::rat) ^ n \<le> of_int y"
      using b(1) by (metis of_int_le_iff of_int_numeral of_int_power)
    from g2 g1 have "2 ^ n < 1 / a" by (rule order_le_less_trans)
    then have "a < 1 / 2 ^ n" using assms by (simp add: field_simps)
    moreover have "pow2 (- int (Suc n) + 1) = 1 / 2 ^ n" by (simp add: pow2_def)
    ultimately have hi: "a < pow2 (- int (Suc n) + 1)" by simp
    have "1 / a \<le> of_int (y + 1)" unfolding y_def using ceiling_correct [of "1 / a"] by simp
    moreover have "y + 1 \<le> 2 ^ Suc n" using b(2) by simp
    then have "(of_int (y + 1) :: rat) \<le> of_int (2 ^ Suc n)" by (simp only: of_int_le_iff)
    ultimately have "1 / a \<le> 2 ^ Suc n" by simp
    then have "1 / 2 ^ Suc n \<le> a" using assms by (simp add: field_simps)
    moreover have "nat (int n + 1) = Suc n" by simp
    then have "pow2 (- int (Suc n)) = 1 / 2 ^ Suc n" by (simp add: pow2_def)
    ultimately have lo: "pow2 (- int (Suc n)) \<le> a" by simp
    show ?thesis using lo hi by (simp only: l) 
  qed
  then show "pow2 (ilog2 a) \<le> a" and "a < pow2 (ilog2 a + 1)" by simp_all
qed

lemma round_half_even_of_int: "round_half_even (of_int z) = z"
  by (simp add: round_half_even_def)

lemma round_half_even_error: "\<bar>of_int (round_half_even x) - x\<bar> \<le> 1 / 2"
proof -
  define f where "f = \<lfloor>x\<rfloor>"
  have b: "of_int f \<le> x" "x < of_int f + 1"
    using floor_correct [of x] by (simp_all add: f_def)
  have d: "round_half_even x =
      (if x - of_int f < 1 / 2 then f else if 1 / 2 < x - of_int f then f + 1
       else if even f then f else f + 1)"
    by (simp add: round_half_even_def Let_def f_def)
  consider "x - of_int f < 1 / 2" | "1 / 2 < x - of_int f" | "x - of_int f = 1 / 2"
    by linarith
  then show ?thesis
  proof cases
    case 1
    then have "round_half_even x = f" by (simp add: d)
    then show ?thesis using b 1 by (simp add: abs_le_iff)
  next
    case 2
    then have "round_half_even x = f + 1" by (simp add: d)
    then show ?thesis using b 2 by (simp add: abs_le_iff)
  next
    case 3
    then have "round_half_even x = f \<or> round_half_even x = f + 1" by (simp add: d)
    then show ?thesis using 3 by (auto simp: abs_le_iff)
  qed
qed

lemma round_double_normal:
  assumes "pow2 k \<le> \<bar>q\<bar>" "\<bar>q\<bar> < pow2 (k + 1)" "- 1022 \<le> k"
  shows "round_double q =
    (let r = of_int (round_half_even (\<bar>q\<bar> / pow2 (k - 52))) * pow2 (k - 52)
     in if pow2 1024 \<le> r then (if 0 < q then PosInf else NegInf)
        else Fin (if 0 < q then r else - r))"
proof -
  have "0 < \<bar>q\<bar>" using assms(1) pow2_pos[of k] by linarith
  then have q0: "q \<noteq> 0" by simp
  have l: "ilog2 \<bar>q\<bar> = k" using assms(1,2) by (rule ilog2_eqI)
  have m: "max (k - 52) (- 1074) = k - 52" using assms(3) by simp
  show ?thesis unfolding round_double_def Let_def l m using q0 by simp
qed

lemma round_double_of_int:
  assumes "0 < m" and "m < 2 ^ 53"
  shows "round_double (of_int m) = Fin (of_int m)"
proof -
  define b where "b = bitlen m - 1"
  have "bitlen m \<noteq> 0" using assms(1) by (simp add: bitlen_eq_zero_iff)
  then have b0: "0 \<le> b" using bitlen_nonneg [of m] by (simp add: b_def)
  have "bitlen m \<le> 53" using assms(2) by (simp add: bitlen_le_iff_power)
  then have b52: "b \<le> 52" by (simp add: b_def)
  have a1: "(1::rat) \<le> of_int m" using assms(1) by simp
  have l: "ilog2 (of_int m) = b" using a1 by (simp add: ilog2_def b_def)
  define k where "k = nat (52 - b)"
  have e: "max (b - 52) (- 1074) = b - 52" using b0 by simp
  have p: "pow2 (b - 52) = 1 / 2 ^ k"
  proof (cases "b = 52")
    case True
    then show ?thesis by (simp add: pow2_def k_def)
  next
    case False
    then have "b - 52 < 0" using b52 by simp
    moreover have "nat (- (b - 52)) = k" by (simp add: k_def)
    ultimately show ?thesis by (simp add: pow2_def)
  qed
  have q: "of_int m / pow2 (b - 52) = (of_int (m * 2 ^ k) :: rat)"
    by (simp add: p)
  have big: "\<not> pow2 1024 \<le> (of_int m :: rat)"
  proof -
    have "(of_int m :: rat) < 2 ^ 53" using assms(2) by (metis of_int_less_numeral_power_cancel_iff)
    also have "(2::rat) ^ 53 \<le> 2 ^ 1024" by (rule power_increasing) simp_all
    finally show ?thesis by (simp add: pow2_def)
  qed
  have r: "of_int (round_half_even (of_int m / pow2 (b - 52))) * pow2 (b - 52)
             = (of_int m :: rat)"
    by (simp only: q round_half_even_of_int) (simp add: p)
  have m0: "(of_int m :: rat) \<noteq> 0" "\<bar>of_int m :: rat\<bar> = of_int m" "(0::rat) < of_int m"
    using assms(1) by simp_all
  show ?thesis
    unfolding round_double_def Let_def m0(2) l e r using m0(1,3) big by simp
qed

lemma round_double_error:
  assumes "pow2 (- 1022) \<le> q" and "q < pow2 1023"
  shows "\<exists>r. round_double q = Fin r \<and> \<bar>r - q\<bar> \<le> q / 2 ^ 53"
proof -
  have q0: "0 < q" using assms(1) pow2_pos [of "- 1022"] by linarith
  define k where "k = ilog2 q"
  have lo: "pow2 k \<le> q" and hi: "q < pow2 (k + 1)"
    using ilog2_bounds [OF q0] by (simp_all add: k_def)
  have "pow2 (- 1022) < pow2 (k + 1)" using assms(1) hi by linarith
  then have "- 1022 < k + 1" by (rule pow2_less_imp)
  then have k: "- 1022 \<le> k" by simp
  define u where "u = pow2 (k - 52)"
  have u0: "0 < u" by (simp add: u_def pow2_pos)
  have ku: "pow2 k = u * 2 ^ 52"
    using pow2_add [of "k - 52" 52] by (simp add: u_def pow2_def)
  define m where "m = round_half_even (q / u)"
  define r where "r = of_int m * u"
  have "\<bar>of_int m - q / u\<bar> \<le> 1 / 2"
    unfolding m_def by (rule round_half_even_error)
  then have "\<bar>of_int m - q / u\<bar> * u \<le> 1 / 2 * u"
    using u0 by (simp only: mult_le_cancel_right_pos)
  moreover have "\<bar>of_int m - q / u\<bar> * u = \<bar>r - q\<bar>"
  proof -
    have "\<bar>of_int m - q / u\<bar> * u = \<bar>(of_int m - q / u) * u\<bar>"
      using u0 by (simp add: abs_mult)
    also have "(of_int m - q / u) * u = r - q"
      using u0 by (simp add: r_def field_simps)
    finally show ?thesis .
  qed
  ultimately have e1: "\<bar>r - q\<bar> \<le> u / 2" by simp
  have "u * 2 ^ 52 \<le> q" using lo by (simp only: ku)
  then have e2: "u / 2 \<le> q / 2 ^ 53" by simp
  have err: "\<bar>r - q\<bar> \<le> q / 2 ^ 53" using e1 e2 by linarith
  have "q / 2 ^ 53 \<le> q" using q0 by (simp add: field_simps)
  moreover have "r - q \<le> \<bar>r - q\<bar>" by (rule abs_ge_self)
  ultimately have "r \<le> 2 * q" using err by linarith
  moreover have "2 * q < 2 * pow2 1023" using assms(2) by simp
  moreover have "2 * pow2 1023 = pow2 1024"
    using pow2_add [of 1 1023] by (simp add: pow2_def)
  ultimately have small: "\<not> pow2 1024 \<le> r" by linarith
  have "\<bar>q\<bar> = q" using q0 by simp
  then have "round_double q = Fin r"
    using round_double_normal [of k q] lo hi k q0 small
    by (simp add: Let_def u_def [symmetric] m_def [symmetric] r_def [symmetric])
  then show ?thesis using err by blast
qed

lemma floor_numeral_div:
  "\<lfloor>(numeral a :: rat) / numeral b\<rfloor> = numeral a div numeral b"
  using floor_divide_of_int_eq[of "numeral a" "numeral b", where ?'a = rat] by simp

lemma floor_neg_numeral_div:
  "\<lfloor>- ((numeral a :: rat) / numeral b)\<rfloor> = (- numeral a) div numeral b"
  using floor_divide_of_int_eq[of "- numeral a" "numeral b", where ?'a = rat] by simp

lemma floor_of_int_half: "\<lfloor>(of_int z :: rat) + 1 / 2\<rfloor> = z"
  by (rule floor_unique) simp_all

lemma round_double_ten: "round_double 10 = Fin 10"
  using round_double_of_int [of 10] by simp

lemma round_double_1005: "round_double (1005 / 1000) = Fin (1131529406376837 / 1125899906842624)"
  by (subst round_double_normal[where k=0])
    (simp_all add: pow2_def round_half_even_def Let_def floor_numeral_div)

lemma round_double_2675: "round_double (2675 / 1000) = Fin (3011782250804019 / 1125899906842624)"
  by (subst round_double_normal[where k=1])
    (simp_all add: pow2_def round_half_even_def Let_def floor_numeral_div)

lemma round_double_12345: "round_double (12345 / 1000) = Fin (6949617174986097 / 562949953421312)"
  by (subst round_double_normal[where k=3])
    (simp_all add: pow2_def round_half_even_def Let_def floor_numeral_div)

lemma round_double_1999:
  "round_double (1999 / 100) = Fin (5626684784446013 / 281474976710656)"
  by (subst round_double_normal[where k=4])
    (simp_all add: pow2_def round_half_even_def Let_def floor_numeral_div)

lemma amountCents_ten: "amountCents (Fin 10) = Fin 1000"
proof -
  have b: "round_double (10 * 100) = Fin 1000"
    by (subst round_double_normal[where k=9])
      (simp_all add: pow2_def round_half_even_def Let_def floor_numeral_div)
  show ?thesis unfolding amountCents_def number_mul.simps b by (simp add: floor_numeral_div)
qed

lemma amountCents_minus_five: "amountCents (Fin (- 5)) = Fin (- 500)"
proof -
  have b: "round_double (- 5 * 100) = Fin (- 500)"
    by (subst round_double_normal[where k=8])
      (simp_all add: pow2_def round_half_even_def Let_def floor_numeral_div)
  show ?thesis unfolding amountCents_def number_mul.simps b
    by (simp add: floor_numeral_div floor_neg_numeral_div)
qed

lemma amountCents_1005: "amountCents (Fin (1131529406376837 / 1125899906842624)) = Fin 100"
proof -
  have b: "round_double (1131529406376837 / 1125899906842624 * 100)
             = Fin (7072058789855231 / 70368744177664)"
    by (subst round_double_normal[where k=6])
      (simp_all add: pow2_def round_half_even_def Let_def floor_numeral_div)
  show ?thesis unfolding amountCents_def number_mul.simps b by (simp add: floor_numeral_div)
qed

lemma amountCents_2675: "amountCents (Fin (3011782250804019 / 1125899906842624)) = Fin 268"
proof -
  have b: "round_double (3011782250804019 / 1125899906842624 * 100) = Fin (535 / 2)"
    by (subst round_double_normal[where k=8])
      (simp_all add: pow2_def round_half_even_def Let_def floor_numeral_div)
  show ?thesis unfolding amountCents_def number_mul.simps b by (simp add: floor_numeral_div)
qed

lemma amountCents_12345: "amountCents (Fin (6949617174986097 / 562949953421312)) = Fin 1235"
proof -
  have b: "round_double (6949617174986097 / 562949953421312 * 100) = Fin (2469 / 2)"
    by (subst round_double_normal[where k=10])
      (simp_all add: pow2_def round_half_even_def Let_def floor_numeral_div)
  show ?thesis unfolding amountCents_def number_mul.simps b by (simp add: floor_numeral_div)
qed

lemma amountCents_cents:
  assumes "0 < c" and "c < 2 ^ 50"
  shows "amountCents (round_double (of_int c / 100)) = Fin (of_int c)"
proof -
  define C :: rat where "C = of_int c"
  have C0: "1 \<le> C" using assms(1) by (simp add: C_def)
  have "(of_int c :: rat) < of_int (2 ^ 50)" using assms(2) by (simp only: of_int_less_iff)
  then have C1: "C < 1125899906842624" by (simp add: C_def)
  have tiny: "pow2 (- 1022) \<le> 1 / 128"
    using pow2_mono [of "- 1022" "- 7"] by (simp add: pow2_def)
  have huge: "(2251799813685248 :: rat) \<le> pow2 1023"
    using pow2_mono [of 51 1023] by (simp add: pow2_def)
  have q_lo: "pow2 (- 1022) \<le> C / 100" using tiny C0 by linarith
  have q_hi: "C / 100 < pow2 1023" using huge C1 by linarith
  obtain r1 where r1: "round_double (C / 100) = Fin r1"
    and e1: "\<bar>r1 - C / 100\<bar> \<le> C / 100 / 2 ^ 53"
    using round_double_error [OF q_lo q_hi] by blast
  have n53: "(2::rat) ^ 53 = 9007199254740992" by simp
  have e1': "r1 - C / 100 \<le> C / 100 / 9007199254740992"
    "- (r1 - C / 100) \<le> C / 100 / 9007199254740992"
    using abs_le_D1 [OF e1] abs_le_D2 [OF e1] by (simp_all only: n53)
  define p where "p = r1 * 100"
  have p_lo: "pow2 (- 1022) \<le> p" using tiny C0 e1' unfolding p_def by linarith
  have p_hi: "p < pow2 1023" using huge C1 e1' unfolding p_def by linarith
  obtain r2 where r2: "round_double p = Fin r2"
    and e2: "\<bar>r2 - p\<bar> \<le> p / 2 ^ 53"
    using round_double_error [OF p_lo p_hi] by blast
  have e2': "r2 - p \<le> p / 9007199254740992" "- (r2 - p) \<le> p / 9007199254740992"
    using abs_le_D1 [OF e2] abs_le_D2 [OF e2] by (simp_all only: n53)
  have lo: "of_int c \<le> r2 + 1 / 2"
    using e1' e2' C0 C1 unfolding p_def C_def by linarith
  have hi: "r2 + 1 / 2 < of_int c + 1"
    using e1' e2' C0 C1 unfolding p_def C_def by linarith
  have fl: "\<lfloor>r2 + 1 / 2\<rfloor> = c" using lo hi by (rule floor_unique)
  have "amountCents (Fin r1) = Math_round (round_double p)"
    by (simp add: amountCents_def p_def)
  also have "\<dots> = Fin (of_int c)" by (simp only: r2 Math_round.simps fl)
  finally show ?thesis using r1 by (simp only: C_def)
qed

lemma cents_half_up_cents: "cents_half_up (of_int c / 100) = c"
proof -
  have "(of_int c :: rat) / 100 * 100 + 1 / 2 = of_int c + 1 / 2" by simp
  then show ?thesis unfolding cents_half_up_def by (simp only: floor_of_int_half)
qed

section \<open>Recording a donation attempt\<close>

text \<open>
  C4. A creation request whose donation amount is missing (or otherwise falsy) or converts
  to a minor-unit amount that is not a number or not positive, or whose email is missing or
  empty, is answered with status 400, and the world is left as it was: no call to the
  processor and no statement to the store has been recorded, and the store is unchanged.
\<close>

theorem create_payment_intent_rejects_invalid_input:
  assumes "req_body \<noteq> JUndefined" and "req_body \<noteq> JNull"
    and "\<not> truthy (js_prop req_body ''donationAmount'')
         \<or> \<not> truthy (js_prop req_body ''email'')
         \<or> (\<exists>n. Number_js rt (js_prop req_body ''donationAmount'') = Inr n
                \<and> (isNaN (amountCents n) \<or> le_zero (amountCents n)))"
  shows "\<exists>msg. create_payment_intent rt req_body w = (json_error 400 msg, w)"
  using assms
  by (auto simp: create_payment_intent_def get_prop_def Let_def)

theorem create_payment_intent_rejects_invalid_input_witness:
  "donation_request (JNum (Fin (- 5))) \<noteq> JUndefined
   \<and> donation_request (JNum (Fin (- 5))) \<noteq> JNull
   \<and> Number_js demo_env (js_prop (donation_request (JNum (Fin (- 5)))) ''donationAmount'')
       = Inr (Fin (- 5))
   \<and> le_zero (amountCents (Fin (- 5)))
   \<and> (\<exists>msg. create_payment_intent demo_env (donation_request (JNum (Fin (- 5)))) demo_world
              = (json_error 400 msg, demo_world))"
proof -
  let ?b = "donation_request (JNum (Fin (- 5)))"
  have h1: "?b \<noteq> JUndefined" and h2: "?b \<noteq> JNull"
    by (simp_all add: donation_request_def)
  have n: "Number_js demo_env (js_prop ?b ''donationAmount'') = Inr (Fin (- 5))"
    by (simp add: donation_request_def)
  have z: "le_zero (amountCents (Fin (- 5)))"
    by (simp add: amountCents_minus_five)
  have h3: "\<not> truthy (js_prop ?b ''donationAmount'')
         \<or> \<not> truthy (js_prop ?b ''email'')
         \<or> (\<exists>n. Number_js demo_env (js_prop ?b ''donationAmount'') = Inr n
                \<and> (isNaN (amountCents n) \<or> le_zero (amountCents n)))"
    using n z by blast
  show ?thesis
    using create_payment_intent_rejects_invalid_input [OF h1 h2 h3, of demo_world] h1 h2 n z
    by simp
qed

text \<open>
  C5. When a valid creation request reaches the processor and the processor's call fails,
  the failure goes to the error handler, which answers 500; the store is exactly as it was
  before the request, and the only thing recorded is the failed call.
\<close>

theorem create_payment_intent_upstream_failure:
  assumes "req_body \<noteq> JUndefined" and "req_body \<noteq> JNull"
    and "truthy (js_prop req_body ''donationAmount'')"
    and "truthy (js_prop req_body ''email'')"
    and "Number_js rt (js_prop req_body ''donationAmount'') = Inr n"
    and "\<not> isNaN (amountCents n)" and "\<not> le_zero (amountCents n)"
    and "stripe_create rt (amountCents n) (js_prop req_body ''email'') = Inl err"
  shows "\<exists>w'. create_payment_intent rt req_body w = (error_handler err, w')
           \<and> status (error_handler err) = 500
           \<and> db w' = db w
           \<and> trace w' = trace w @ [StripeCreate (amountCents n) (js_prop req_body ''email'')]"
  using assms
  by (simp add: create_payment_intent_def get_prop_def Let_def record_effect_def
      error_handler_def json_error_def)

theorem create_payment_intent_upstream_failure_witness:
  "donation_request (JNum (Fin 10)) \<noteq> JUndefined
   \<and> donation_request (JNum (Fin 10)) \<noteq> JNull
   \<and> truthy (js_prop (donation_request (JNum (Fin 10))) ''donationAmount'')
   \<and> truthy (js_prop (donation_request (JNum (Fin 10))) ''email'')
   \<and> amountCents (Fin 10) = Fin 1000
   \<and> stripe_create (demo_env\<lparr>stripe_create := \<lambda>amount em. Inl ''api_connection_error''\<rparr>)
        (Fin 1000) (JStr ''donor@example.org'') = Inl ''api_connection_error''
   \<and> (\<exists>w'. create_payment_intent
               (demo_env\<lparr>stripe_create := \<lambda>amount em. Inl ''api_connection_error''\<rparr>)
               (donation_request (JNum (Fin 10))) demo_world
             = (error_handler ''api_connection_error'', w')
           \<and> status (error_handler ''api_connection_error'') = 500
           \<and> db w' = demo_db
           \<and> trace w' = [StripeCreate (Fin 1000) (JStr ''donor@example.org'')])"
proof -
  let ?b = "donation_request (JNum (Fin 10))"
  let ?rt = "demo_env\<lparr>stripe_create := \<lambda>amount em. Inl ''api_connection_error''\<rparr>"
  have h1: "?b \<noteq> JUndefined" and h2: "?b \<noteq> JNull"
    and h3: "truthy (js_prop ?b ''donationAmount'')" and h4: "truthy (js_prop ?b ''email'')"
    and h5: "Number_js ?rt (js_prop ?b ''donationAmount'') = Inr (Fin 10)"
    by (simp_all add: donation_request_def)
  have h6: "\<not> isNaN (amountCents (Fin 10))" and h7: "\<not> le_zero (amountCents (Fin 10))"
    by (simp_all add: amountCents_ten)
  have h8: "stripe_create ?rt (amountCents (Fin 10)) (js_prop ?b ''email'')
              = Inl ''api_connection_error''"
    by simp
  have e: "js_prop ?b ''email'' = JStr ''donor@example.org''"
    by (simp add: donation_request_def)
  show ?thesis
    using create_payment_intent_upstream_failure [OF h1 h2 h3 h4 h5 h6 h7 h8, of demo_world]
      h1 h2 h3 h4
    by (simp add: amountCents_ten e demo_world_def)
qed

text \<open>
  C6. When a valid creation request reaches the processor, the processor returns a payment
  intent with a non-empty identifier and a non-empty client secret, and the store accepts
  the insertion, then the store holds exactly one more donation, appended to the ones it
  held; the new donation is pending and carries the processor's identifier, and the answer
  is status 200 with the processor's client secret.
\<close>

theorem create_payment_intent_success:
  assumes "req_body \<noteq> JUndefined" and "req_body \<noteq> JNull"
    and "truthy (js_prop req_body ''donationAmount'')"
    and "truthy (js_prop req_body ''email'')"
    and "Number_js rt (js_prop req_body ''donationAmount'') = Inr n"
    and "\<not> isNaN (amountCents n)" and "\<not> le_zero (amountCents n)"
    and "stripe_create rt (amountCents n) (js_prop req_body ''email'') = Inr paymentIntent"
    and "pi_id paymentIntent \<noteq> []" and "client_secret paymentIntent \<noteq> []"
    and "\<not> db_fails rt
           (InsertDonation (amountCents n) (js_prop req_body ''email'')
              (or_null (js_prop req_body ''firstName'')) (or_null (js_prop req_body ''lastName''))
              (or_null (js_prop req_body ''cardName'')) (or_null (js_prop req_body ''country''))
              (or_null (js_prop req_body ''postalCode'')) (pi_id paymentIntent) ''pending'')"
  shows "\<exists>w' r. create_payment_intent rt req_body w =
              (\<lparr>status = 200,
                content = Json (JObj [(''clientSecret'', JStr (client_secret paymentIntent))])\<rparr>,
               w')
           \<and> donations (db w') = donations (db w) @ [r]
           \<and> admin_users (db w') = admin_users (db w)
           \<and> payment_intent_status r = ''pending''
           \<and> payment_intent_id r = pi_id paymentIntent
           \<and> payment_intent_id r \<noteq> []
           \<and> client_secret paymentIntent \<noteq> []"
  using assms
  by (simp add: create_payment_intent_def get_prop_def Let_def record_effect_def dbRun_def
      json_ok_def)

theorem create_payment_intent_success_witness:
  "donation_request (JNum (Fin 10)) \<noteq> JUndefined
   \<and> donation_request (JNum (Fin 10)) \<noteq> JNull
   \<and> truthy (js_prop (donation_request (JNum (Fin 10))) ''donationAmount'')
   \<and> truthy (js_prop (donation_request (JNum (Fin 10))) ''email'')
   \<and> amountCents (Fin 10) = Fin 1000
   \<and> stripe_create demo_env (Fin 1000) (JStr ''donor@example.org'')
        = Inr \<lparr>pi_id = ''pi_4'', client_secret = ''pi_4_secret''\<rparr>
   \<and> \<not> db_fails demo_env
          (InsertDonation (Fin 1000) (JStr ''donor@example.org'') JNull JNull JNull JNull JNull
             ''pi_4'' ''pending'')
   \<and> (\<exists>w' r. create_payment_intent demo_env (donation_request (JNum (Fin 10))) demo_world =
              (\<lparr>status = 200,
                content = Json (JObj [(''clientSecret'', JStr ''pi_4_secret'')])\<rparr>, w')
           \<and> donations (db w') = donations demo_db @ [r]
           \<and> admin_users (db w') = admin_users demo_db
           \<and> payment_intent_status r = ''pending''
           \<and> payment_intent_id r = ''pi_4'')"
proof -
  let ?b = "donation_request (JNum (Fin 10))"
  let ?p = "\<lparr>pi_id = ''pi_4'', client_secret = ''pi_4_secret''\<rparr>"
  have h1: "?b \<noteq> JUndefined" and h2: "?b \<noteq> JNull"
    and h3: "truthy (js_prop ?b ''donationAmount'')" and h4: "truthy (js_prop ?b ''email'')"
    and h5: "Number_js demo_env (js_prop ?b ''donationAmount'') = Inr (Fin 10)"
    by (simp_all add: donation_request_def)
  have h6: "\<not> isNaN (amountCents (Fin 10))" and h7: "\<not> le_zero (amountCents (Fin 10))"
    by (simp_all add: amountCents_ten)
  have h8: "stripe_create demo_env (amountCents (Fin 10)) (js_prop ?b ''email'') = Inr ?p"
    by (simp add: demo_env_def)
  have h9: "pi_id ?p \<noteq> []" and h10: "client_secret ?p \<noteq> []"
    by simp_all
  have h11: "\<not> db_fails demo_env
           (InsertDonation (amountCents (Fin 10)) (js_prop ?b ''email'')
              (or_null (js_prop ?b ''firstName'')) (or_null (js_prop ?b ''lastName''))
              (or_null (js_prop ?b ''cardName'')) (or_null (js_prop ?b ''country''))
              (or_null (js_prop ?b ''postalCode'')) (pi_id ?p) ''pending'')"
    by (simp add: demo_env_def)
  have e: "js_prop ?b ''email'' = JStr ''donor@example.org''"
    by (simp add: donation_request_def)
  have s: "stripe_create demo_env (Fin 1000) (JStr ''donor@example.org'') = Inr ?p"
    and f: "\<not> db_fails demo_env
          (InsertDonation (Fin 1000) (JStr ''donor@example.org'') JNull JNull JNull JNull JNull
             ''pi_4'' ''pending'')"
    by (simp_all add: demo_env_def)
  show ?thesis
    using create_payment_intent_success [OF h1 h2 h3 h4 h5 h6 h7 h8 h9 h10 h11, of demo_world]
      h1 h2 h3 h4 s f
    by (simp add: amountCents_ten demo_world_def) blast
qed

section \<open>Amount conversion\<close>

lemma create_payment_intent_amount:
  assumes "req_body \<noteq> JUndefined" and "req_body \<noteq> JNull"
    and "truthy (js_prop req_body ''donationAmount'')"
    and "truthy (js_prop req_body ''email'')"
    and "Number_js rt (js_prop req_body ''donationAmount'') = Inr n"
    and "\<not> isNaN (amountCents n)" and "\<not> le_zero (amountCents n)"
    and "stripe_create rt (amountCents n) (js_prop req_body ''email'') = Inr paymentIntent"
    and "\<not> db_fails rt
           (InsertDonation (amountCents n) (js_prop req_body ''email'')
              (or_null (js_prop req_body ''firstName'')) (or_null (js_prop req_body ''lastName''))
              (or_null (js_prop req_body ''cardName'')) (or_null (js_prop req_body ''country''))
              (or_null (js_prop req_body ''postalCode'')) (pi_id paymentIntent) ''pending'')"
  shows "trace (snd (create_payment_intent rt req_body w)) =
           trace w @
           [StripeCreate (amountCents n) (js_prop req_body ''email''),
            Db (InsertDonation (amountCents n) (js_prop req_body ''email'')
              (or_null (js_prop req_body ''firstName'')) (or_null (js_prop req_body ''lastName''))
              (or_null (js_prop req_body ''cardName'')) (or_null (js_prop req_body ''country''))
              (or_null (js_prop req_body ''postalCode'')) (pi_id paymentIntent) ''pending'')]"
    and "donation_amount (last (donations (db (snd (create_payment_intent rt req_body w)))))
           = amountCents n"
  using assms
  by (simp_all add: create_payment_intent_def get_prop_def Let_def record_effect_def dbRun_def)

text \<open>
  C7, as stated, fails. The JSON amount 1.005 is sent to the processor and persisted as 100
  cents, while 1.005 times 100 rounded half-up is 101. Read on the binary64 value of the
  request instead of its decimal text, the claim fails at 2.675: the value received is
  below 2.675, its exact product with 100 rounds half-up to 267, and the handler computes 268.
\<close>

theorem amount_conversion_counterexample:
  "trace (snd (create_payment_intent demo_env (donation_request (json_number (1005 / 1000)))
                 demo_world))
     = [StripeCreate (Fin 100) (JStr ''donor@example.org''),
        Db (InsertDonation (Fin 100) (JStr ''donor@example.org'') JNull JNull JNull JNull JNull
              ''pi_4'' ''pending'')]
   \<and> donation_amount (last (donations (db (snd (create_payment_intent demo_env
          (donation_request (json_number (1005 / 1000))) demo_world))))) = Fin 100
   \<and> cents_half_up (1005 / 1000) = 101
   \<and> json_number (2675 / 1000) = JNum (Fin (3011782250804019 / 1125899906842624))
   \<and> amountCents (Fin (3011782250804019 / 1125899906842624)) = Fin 268
   \<and> cents_half_up (3011782250804019 / 1125899906842624) = 267"
proof -
  let ?n = "Fin (1131529406376837 / 1125899906842624)"
  let ?b = "donation_request (json_number (1005 / 1000))"
  have jn: "json_number (1005 / 1000) = JNum ?n"
    by (simp only: json_number_def round_double_1005)
  have h: "?b \<noteq> JUndefined" "?b \<noteq> JNull"
      "truthy (js_prop ?b ''donationAmount'')" "truthy (js_prop ?b ''email'')"
      "Number_js demo_env (js_prop ?b ''donationAmount'') = Inr ?n"
    unfolding jn by (simp_all add: donation_request_def)
  have a: "\<not> isNaN (amountCents ?n)" "\<not> le_zero (amountCents ?n)"
    by (simp_all add: amountCents_1005)
  have s: "stripe_create demo_env (amountCents ?n) (js_prop ?b ''email'')
             = Inr \<lparr>pi_id = ''pi_4'', client_secret = ''pi_4_secret''\<rparr>"
    by (simp add: demo_env_def)
  have f: "\<not> db_fails demo_env
           (InsertDonation (amountCents ?n) (js_prop ?b ''email'')
              (or_null (js_prop ?b ''firstName'')) (or_null (js_prop ?b ''lastName''))
              (or_null (js_prop ?b ''cardName'')) (or_null (js_prop ?b ''country''))
              (or_null (js_prop ?b ''postalCode''))
              (pi_id \<lparr>pi_id = ''pi_4'', client_secret = ''pi_4_secret''\<rparr>) ''pending'')"
    by (simp add: demo_env_def)
  have e: "js_prop ?b ''email'' = JStr ''donor@example.org''"
      "or_null (js_prop ?b ''firstName'') = JNull" "or_null (js_prop ?b ''lastName'') = JNull"
      "or_null (js_prop ?b ''cardName'') = JNull" "or_null (js_prop ?b ''country'') = JNull"
      "or_null (js_prop ?b ''postalCode'') = JNull"
    unfolding jn by (simp_all add: donation_request_def or_null_def)
  have t: "trace demo_world = []" by (simp add: demo_world_def)
  note c = create_payment_intent_amount [OF h a s f, of demo_world]
  have c1: "trace (snd (create_payment_intent demo_env ?b demo_world))
     = [StripeCreate (Fin 100) (JStr ''donor@example.org''),
        Db (InsertDonation (Fin 100) (JStr ''donor@example.org'') JNull JNull JNull JNull JNull
              ''pi_4'' ''pending'')]"
    using c(1) unfolding e t amountCents_1005 by simp
  have c2: "donation_amount (last (donations (db (snd (create_payment_intent demo_env ?b
               demo_world))))) = Fin 100"
    using c(2) by (simp only: amountCents_1005)
  have c3: "cents_half_up (1005 / 1000) = 101"
    by (simp add: cents_half_up_def floor_numeral_div)
  have c4: "json_number (2675 / 1000) = JNum (Fin (3011782250804019 / 1125899906842624))"
    by (simp only: json_number_def round_double_2675)
  have c6: "cents_half_up (3011782250804019 / 1125899906842624) = 267"
    by (simp add: cents_half_up_def floor_numeral_div)
  show ?thesis by (intro conjI c1 c2 c3 c4 amountCents_2675 c6)
qed

text \<open>
  C7, amended. The amount sent to the processor and persisted is
  \<open>Math.round(Number(donationAmount) * 100)\<close>: the binary64 product of the amount received
  and 100, rounded to the nearest integer, the larger one on a tie. For a JSON amount with
  at most two decimal places, \<open>c\<close> cents with \<open>0 < c < 2\<^sup>5\<^sup>0\<close>, this is \<open>c\<close>, the decimal amount
  times 100 rounded half-up. The JSON amounts 12.345 and 10 give 1235 and 1000.
\<close>

theorem amount_conversion:
  "(req_body \<noteq> JUndefined \<and> req_body \<noteq> JNull
      \<and> truthy (js_prop req_body ''donationAmount'') \<and> truthy (js_prop req_body ''email'')
      \<and> Number_js rt (js_prop req_body ''donationAmount'') = Inr n
      \<and> \<not> isNaN (amountCents n) \<and> \<not> le_zero (amountCents n)
      \<and> stripe_create rt (amountCents n) (js_prop req_body ''email'') = Inr paymentIntent
      \<and> \<not> db_fails rt
           (InsertDonation (amountCents n) (js_prop req_body ''email'')
              (or_null (js_prop req_body ''firstName'')) (or_null (js_prop req_body ''lastName''))
              (or_null (js_prop req_body ''cardName'')) (or_null (js_prop req_body ''country''))
              (or_null (js_prop req_body ''postalCode'')) (pi_id paymentIntent) ''pending'')
    \<longrightarrow> trace (snd (create_payment_intent rt req_body w)) =
           trace w @
           [StripeCreate (amountCents n) (js_prop req_body ''email''),
            Db (InsertDonation (amountCents n) (js_prop req_body ''email'')
              (or_null (js_prop req_body ''firstName'')) (or_null (js_prop req_body ''lastName''))
              (or_null (js_prop req_body ''cardName'')) (or_null (js_prop req_body ''country''))
              (or_null (js_prop req_body ''postalCode'')) (pi_id paymentIntent) ''pending'')]
      \<and> donation_amount (last (donations (db (snd (create_payment_intent rt req_body w)))))
           = amountCents n)
   \<and> amountCents (Fin x) = Math_round (round_double (x * 100))
   \<and> (0 < c \<and> c < 2 ^ 50
        \<and> Number_js rt (json_number (of_int c / 100)) = Inr d
        \<longrightarrow> amountCents d = Fin (of_int (cents_half_up (of_int c / 100)))
          \<and> cents_half_up (of_int c / 100) = c)
   \<and> json_number (12345 / 1000) = JNum (Fin (6949617174986097 / 562949953421312))
   \<and> amountCents (Fin (6949617174986097 / 562949953421312)) = Fin 1235
   \<and> json_number 10 = JNum (Fin 10)
   \<and> amountCents (Fin 10) = Fin 1000"
proof (intro conjI impI; (elim conjE)?)
  show "amountCents (Fin x) = Math_round (round_double (x * 100))"
    by (simp add: amountCents_def)
  show "json_number (12345 / 1000) = JNum (Fin (6949617174986097 / 562949953421312))"
    by (simp only: json_number_def round_double_12345)
  show "amountCents (Fin (6949617174986097 / 562949953421312)) = Fin 1235"
    by (rule amountCents_12345)
  show "json_number 10 = JNum (Fin 10)"
    by (simp only: json_number_def round_double_ten)
  show "amountCents (Fin 10) = Fin 1000"
    by (rule amountCents_ten)
  show "cents_half_up (of_int c / 100) = c"
    by (rule cents_half_up_cents)
  show "amountCents d = Fin (of_int (cents_half_up (of_int c / 100)))"
    if "0 < c" "c < 2 ^ 50" "Number_js rt (json_number (of_int c / 100)) = Inr d"
  proof -
    have "d = round_double (of_int c / 100)"
      using that(3) by (simp add: json_number_def)
    then show ?thesis
      using amountCents_cents [OF that(1,2)] by (simp only: cents_half_up_cents)
  qed
qed (simp_all add: create_payment_intent_amount)

theorem amount_conversion_witness:
  "truthy (js_prop (donation_request (json_number 10)) ''donationAmount'')
   \<and> truthy (js_prop (donation_request (json_number 10)) ''email'')
   \<and> Number_js demo_env (js_prop (donation_request (json_number 10)) ''donationAmount'')
       = Inr (Fin 10)
   \<and> trace (snd (create_payment_intent demo_env (donation_request (json_number 10)) demo_world))
       = [StripeCreate (Fin 1000) (JStr ''donor@example.org''),
          Db (InsertDonation (Fin 1000) (JStr ''donor@example.org'') JNull JNull JNull JNull
                JNull ''pi_4'' ''pending'')]
   \<and> donation_amount (last (donations (db (snd (create_payment_intent demo_env
          (donation_request (json_number 10)) demo_world))))) = Fin 1000
   \<and> (0::int) < 1999 \<and> (1999::int) < 2 ^ 50
   \<and> Number_js demo_env (json_number (of_int 1999 / 100))
       = Inr (Fin (5626684784446013 / 281474976710656))
   \<and> amountCents (Fin (5626684784446013 / 281474976710656)) = Fin 1999
   \<and> cents_half_up (of_int 1999 / 100) = 1999"
proof -
  let ?b = "donation_request (json_number 10)"
  let ?p = "\<lparr>pi_id = ''pi_4'', client_secret = ''pi_4_secret''\<rparr>"
  let ?d = "Fin (5626684784446013 / 281474976710656)"
  have jn: "json_number 10 = JNum (Fin 10)"
    by (simp only: json_number_def round_double_ten)
  have h: "?b \<noteq> JUndefined" "?b \<noteq> JNull"
      "truthy (js_prop ?b ''donationAmount'')" "truthy (js_prop ?b ''email'')"
      "Number_js demo_env (js_prop ?b ''donationAmount'') = Inr (Fin 10)"
    unfolding jn by (simp_all add: donation_request_def)
  have a: "\<not> isNaN (amountCents (Fin 10))" "\<not> le_zero (amountCents (Fin 10))"
    by (simp_all add: amountCents_ten)
  have s: "stripe_create demo_env (amountCents (Fin 10)) (js_prop ?b ''email'') = Inr ?p"
    by (simp add: demo_env_def)
  have f: "\<not> db_fails demo_env
           (InsertDonation (amountCents (Fin 10)) (js_prop ?b ''email'')
              (or_null (js_prop ?b ''firstName'')) (or_null (js_prop ?b ''lastName''))
              (or_null (js_prop ?b ''cardName'')) (or_null (js_prop ?b ''country''))
              (or_null (js_prop ?b ''postalCode'')) (pi_id ?p) ''pending'')"
    by (simp add: demo_env_def)
  have e: "js_prop ?b ''email'' = JStr ''donor@example.org''"
      "or_null (js_prop ?b ''firstName'') = JNull" "or_null (js_prop ?b ''lastName'') = JNull"
      "or_null (js_prop ?b ''cardName'') = JNull" "or_null (js_prop ?b ''country'') = JNull"
      "or_null (js_prop ?b ''postalCode'') = JNull"
    unfolding jn by (simp_all add: donation_request_def or_null_def)
  have t: "trace demo_world = []" by (simp add: demo_world_def)
  note T = amount_conversion [where rt = demo_env and req_body = ?b and n = "Fin 10"
      and paymentIntent = ?p and w = demo_world and c = 1999 and d = ?d]
  have c: "trace (snd (create_payment_intent demo_env ?b demo_world)) =
           trace demo_world @
           [StripeCreate (amountCents (Fin 10)) (js_prop ?b ''email''),
            Db (InsertDonation (amountCents (Fin 10)) (js_prop ?b ''email'')
              (or_null (js_prop ?b ''firstName'')) (or_null (js_prop ?b ''lastName''))
              (or_null (js_prop ?b ''cardName'')) (or_null (js_prop ?b ''country''))
              (or_null (js_prop ?b ''postalCode'')) (pi_id ?p) ''pending'')]
      \<and> donation_amount (last (donations (db (snd (create_payment_intent demo_env ?b
            demo_world))))) = amountCents (Fin 10)"
    by (rule T [THEN conjunct1, THEN mp]) (intro conjI h a s f)
  have c1: "trace (snd (create_payment_intent demo_env ?b demo_world))
       = [StripeCreate (Fin 1000) (JStr ''donor@example.org''),
          Db (InsertDonation (Fin 1000) (JStr ''donor@example.org'') JNull JNull JNull JNull
                JNull ''pi_4'' ''pending'')]"
    using c [THEN conjunct1] unfolding e t amountCents_ten by simp
  have c2: "donation_amount (last (donations (db (snd (create_payment_intent demo_env ?b
               demo_world))))) = Fin 1000"
    using c [THEN conjunct2] by (simp only: amountCents_ten)
  have k: "(0::int) < 1999" "(1999::int) < 2 ^ 50" by simp_all
  have "round_double (of_int 1999 / 100) = ?d"
    using round_double_1999 by simp
  then have n: "Number_js demo_env (json_number (of_int 1999 / 100)) = Inr ?d"
    by (simp only: json_number_def Number_js.simps)
  have w: "amountCents ?d = Fin (of_int (cents_half_up (of_int 1999 / 100)))
          \<and> cents_half_up (of_int 1999 / 100) = 1999"
    by (rule T [THEN conjunct2, THEN conjunct2, THEN conjunct1, THEN mp]) (intro conjI k n)
  have w1: "amountCents ?d = Fin 1999"
    using w by (elim conjE) (simp only: of_int_numeral)
  show ?thesis
    by (intro conjI h(3,4,5) c1 c2 k n w1 conjunct2 [OF w])
qed

section \<open>Applying a webhook event\<close>

lemma JSON_parse_object: "JSON_parse rt (JObj kvs) = Inl (json_parse_error rt (JObj kvs))"
  by (simp add: JSON_parse_def)

lemma webhook_event_object: "\<exists>msg. webhook_event rt (JObj kvs) signature = Inl msg"
  by (simp add: webhook_event_def constructEvent_def JSON_parse_object split: option.splits)

text \<open>
  What the handler does once an event is accepted, which takes a body that is not an
  object: for the type \<open>payment_intent.succeeded\<close> and a store that carries out the update,
  every donation with the identifier of the event gets the status \<open>succeeded\<close> and nothing
  else changes; an event of any other type changes and records nothing; the answer is
  status 200 with \<open>{received: true}\<close>.
\<close>

lemma webhook_after_acceptance:
  assumes "webhook_event rt req_body signature = Inr event"
    and "get_prop event ''type'' = Inr ty"
  shows
    "(ty = JStr ''payment_intent.succeeded''
        \<and> get_prop (js_prop event ''data'') ''object'' = Inr paymentIntent
        \<and> get_prop paymentIntent ''id'' = Inr (JStr pid)
        \<and> \<not> db_fails rt (UpdateStatusByIntent ''succeeded'' (JStr pid))
      \<longrightarrow> (\<exists>w'. webhook rt req_body signature w = (received, w')
             \<and> donations (db w') =
                 map (\<lambda>r. if payment_intent_id r = pid
                           then r\<lparr>payment_intent_status := ''succeeded''\<rparr> else r)
                   (donations (db w))
             \<and> donations_seq (db w') = donations_seq (db w)
             \<and> admin_users (db w') = admin_users (db w)
             \<and> admin_users_seq (db w') = admin_users_seq (db w)
             \<and> (pid \<notin> payment_intent_id ` set (donations (db w)) \<longrightarrow> db w' = db w)))
     \<and> (ty \<noteq> JStr ''payment_intent.succeeded''
          \<longrightarrow> webhook rt req_body signature w = (received, w))
     \<and> received = \<lparr>status = 200, content = Json (JObj [(''received'', JBool True)])\<rparr>"
proof (intro conjI impI)
  assume a: "ty = JStr ''payment_intent.succeeded''
        \<and> get_prop (js_prop event ''data'') ''object'' = Inr paymentIntent
        \<and> get_prop paymentIntent ''id'' = Inr (JStr pid)
        \<and> \<not> db_fails rt (UpdateStatusByIntent ''succeeded'' (JStr pid))"
  let ?f = "\<lambda>r. if payment_intent_id r = pid
                 then r\<lparr>payment_intent_status := ''succeeded''\<rparr> else r"
  let ?w = "\<lparr>db = (db w)\<lparr>donations := map ?f (donations (db w))\<rparr>,
             trace = trace w @ [Db (UpdateStatusByIntent ''succeeded'' (JStr pid))]\<rparr>"
  have run: "webhook rt req_body signature w = (received, ?w)"
    using assms a by (simp add: webhook_def dbRun_def record_effect_def bound_text_def)
  have same: "db ?w = db w" if "pid \<notin> payment_intent_id ` set (donations (db w))"
  proof -
    have "map ?f (donations (db w)) = donations (db w)"
      using that by (intro map_idI) auto
    then show ?thesis by simp
  qed
  show "\<exists>w'. webhook rt req_body signature w = (received, w')
             \<and> donations (db w') = map ?f (donations (db w))
             \<and> donations_seq (db w') = donations_seq (db w)
             \<and> admin_users (db w') = admin_users (db w)
             \<and> admin_users_seq (db w') = admin_users_seq (db w)
             \<and> (pid \<notin> payment_intent_id ` set (donations (db w)) \<longrightarrow> db w' = db w)"
    using run same by (intro exI[of _ ?w]) simp
next
  assume "ty \<noteq> JStr ''payment_intent.succeeded''"
  then show "webhook rt req_body signature w = (received, w)"
    using assms by (simp add: webhook_def)
next
  show "received = \<lparr>status = 200, content = Json (JObj [(''received'', JBool True)])\<rparr>"
    by (simp add: received_def json_ok_def)
qed

text \<open>
  C1 does not hold of the server. An event of the processor is delivered as a JSON object,
  and it reaches the handler parsed by \<open>express.json()\<close>. Neither \<open>constructEvent\<close> nor
  \<open>JSON.parse\<close> accepts an object: whatever the secret, the signature header, the event and
  the store, the delivery is answered with status 400 and the text \<open>Webhook Error: ...\<close>,
  not with \<open>{received: true}\<close>, no statement is issued and the store is unchanged, so the
  donation that a \<open>payment_intent.succeeded\<close> event names keeps its status.
\<close>

theorem webhook_rejects_event_object:
  "status (fst (webhook rt (JObj kvs) signature w)) = 400
   \<and> (\<exists>msg. content (fst (webhook rt (JObj kvs) signature w)) = Text (''Webhook Error: '' @ msg))
   \<and> fst (webhook rt (JObj kvs) signature w) \<noteq> received
   \<and> snd (webhook rt (JObj kvs) signature w) = w"
proof -
  obtain msg where m: "webhook_event rt (JObj kvs) signature = Inl msg"
    using webhook_event_object by blast
  have r: "webhook rt (JObj kvs) signature w
             = (\<lparr>status = 400, content = Text (''Webhook Error: '' @ msg)\<rparr>, w)"
    by (simp add: webhook_def m)
  show ?thesis
    by (simp add: r received_def json_ok_def)
qed

theorem webhook_rejects_event_object_witness:
  "status (fst (webhook demo_env (demo_event ''payment_intent.succeeded'' ''pi_2'') None
                  demo_world)) = 400
   \<and> fst (webhook demo_env (demo_event ''payment_intent.succeeded'' ''pi_2'') None demo_world)
       \<noteq> \<lparr>status = 200, content = Json (JObj [(''received'', JBool True)])\<rparr>
   \<and> snd (webhook demo_env (demo_event ''payment_intent.succeeded'' ''pi_2'') None demo_world)
       = demo_world
   \<and> donations (db (snd (webhook demo_env (demo_event ''payment_intent.succeeded'' ''pi_2'')
                            None demo_world)))
       = [demo_donation 1 ''pi_1'' ''succeeded'' 10,
          demo_donation 2 ''pi_2'' ''pending'' 20,
          demo_donation 3 ''pi_3'' ''canceled'' 30]"
proof -
  let ?kvs = "[(''type'', JStr ''payment_intent.succeeded''),
               (''data'', JObj [(''object'', JObj [(''id'', JStr ''pi_2'')])])]"
  have e: "demo_event ''payment_intent.succeeded'' ''pi_2'' = JObj ?kvs"
    by (simp add: demo_event_def)
  note t = webhook_rejects_event_object [of demo_env ?kvs None demo_world]
  have r1: "status (fst (webhook demo_env (JObj ?kvs) None demo_world)) = 400"
    using t by (rule conjunct1)
  have r2: "fst (webhook demo_env (JObj ?kvs) None demo_world)
              \<noteq> \<lparr>status = 200, content = Json (JObj [(''received'', JBool True)])\<rparr>"
    using t by (simp add: received_def json_ok_def)
  have r3: "snd (webhook demo_env (JObj ?kvs) None demo_world) = demo_world"
    using t by (elim conjE)
  have r4: "donations (db (snd (webhook demo_env (JObj ?kvs) None demo_world)))
       = [demo_donation 1 ''pi_1'' ''succeeded'' 10,
          demo_donation 2 ''pi_2'' ''pending'' 20,
          demo_donation 3 ''pi_3'' ''canceled'' 30]"
    unfolding r3 by (simp add: demo_world_def demo_db_def)
  show ?thesis
    unfolding e by (intro conjI r1 r2 r3 r4)
qed

section \<open>Admin accounts\<close>

lemma bcrypt_hash_string: "bcrypt_hash rt (JStr s) = Inr (hash_string rt s)"
  by (simp add: bcrypt_hash_def)

lemma bcrypt_hash_not_string:
  "\<not> is_string data \<Longrightarrow> \<exists>err. bcrypt_hash rt data = Inl err"
  by (cases data) (simp_all add: bcrypt_hash_def)

lemma bcrypt_compare_not_string:
  "\<not> is_string data \<Longrightarrow> bcrypt_compare rt data h = Inl ''data and hash must be strings''"
  by (cases data) (simp_all add: bcrypt_compare_def)

text \<open>
  Usernames are stored and compared as text: a request for a username whose text is taken
  is answered 500 and changes nothing, and a login finds the account whose username is the
  text of the value sent.
\<close>

lemma register_username_taken:
  assumes "req_body \<noteq> JUndefined" and "req_body \<noteq> JNull"
    and "truthy (js_prop req_body ''username'')"
    and "js_prop req_body ''password'' = JStr p" and "p \<noteq> []"
    and "\<not> db_fails rt CountAdmins"
    and "sess \<noteq> None \<or> admin_users (db w) = []"
    and "bound_text rt (js_prop req_body ''username'') = Some t"
    and "Some t \<in> username ` set (admin_users (db w))"
  shows "status (fst (register rt req_body sess w)) = 500"
    and "db (snd (register rt req_body sess w)) = db w"
  using assms
  by (auto simp: register_def get_prop_def dbGet_count_def dbRun_def record_effect_def Let_def
      bcrypt_hash_string error_handler_def json_error_def)

lemma login_finds_username_by_text:
  assumes "req_body \<noteq> JUndefined" and "req_body \<noteq> JNull"
    and "truthy (js_prop req_body ''username'')"
    and "js_prop req_body ''password'' = JStr p" and "p \<noteq> []"
    and "\<not> db_fails rt (SelectAdmin (js_prop req_body ''username''))"
    and "bound_text rt (js_prop req_body ''username'') = Some t"
    and "find (\<lambda>a. username a = Some t) (admin_users (db w)) = Some user"
    and "compare_string rt p (password user)"
  shows "fst (login rt req_body sess w) = json_ok (JObj [(''message'', JStr ''Login successful.'')])"
    and "fst (snd (login rt req_body sess w)) = Some \<lparr>user_id = admin_id user, user_name = Some t\<rparr>"
proof -
  have f: "find (\<lambda>a. username a \<noteq> None \<and> username a = bound_text rt (js_prop req_body ''username''))
             (admin_users (db w)) = Some user"
  proof -
    have eq: "(\<lambda>a. username a \<noteq> None \<and> username a = bound_text rt (js_prop req_body ''username''))
            = (\<lambda>a. username a = Some t)"
      using assms(7) by auto
    show ?thesis unfolding eq by (rule assms(8))
  qed
  have u: "username user = Some t"
    using assms(8) by (auto simp: find_Some_iff)
  show "fst (login rt req_body sess w) = json_ok (JObj [(''message'', JStr ''Login successful.'')])"
    and "fst (snd (login rt req_body sess w)) = Some \<lparr>user_id = admin_id user, user_name = Some t\<rparr>"
    using assms(1-6,9) f u
    by (simp_all add: login_def get_prop_def dbGet_admin_def record_effect_def Let_def
        bcrypt_compare_def)
qed




text \<open>
  Where the login does answer alike: when the password is a string that does not match the
  hash of the account named, the answer is the one given for a username that names no
  account, status 401 with the error \<open>Invalid credentials.\<close>, and the session is unchanged.
\<close>

lemma login_same_answer_for_string_passwords:
  assumes "body1 \<noteq> JUndefined" and "body1 \<noteq> JNull"
    and "truthy (js_prop body1 ''username'')" and "js_prop body1 ''password'' = JStr p1"
    and "p1 \<noteq> []"
    and "body2 \<noteq> JUndefined" and "body2 \<noteq> JNull"
    and "truthy (js_prop body2 ''username'')" and "truthy (js_prop body2 ''password'')"
    and "\<not> db_fails rt (SelectAdmin (js_prop body1 ''username''))"
    and "\<not> db_fails rt (SelectAdmin (js_prop body2 ''username''))"
    and "find (\<lambda>a. username a \<noteq> None \<and> username a = bound_text rt (js_prop body1 ''username''))
           (admin_users (db w)) = Some user"
    and "\<not> compare_string rt p1 (password user)"
    and "find (\<lambda>a. username a \<noteq> None \<and> username a = bound_text rt (js_prop body2 ''username''))
           (admin_users (db w)) = None"
  shows "fst (login rt body1 sess1 w) = fst (login rt body2 sess2 w)
     \<and> fst (login rt body1 sess1 w) =
         \<lparr>status = 401, content = Json (JObj [(''error'', JStr ''Invalid credentials.'')])\<rparr>
     \<and> fst (snd (login rt body1 sess1 w)) = sess1
     \<and> fst (snd (login rt body2 sess2 w)) = sess2"
proof -
  have l1: "login rt body1 sess1 w =
      (invalid_credentials, sess1, record_effect (Db (SelectAdmin (js_prop body1 ''username''))) w)"
    using assms(1-5,10,12,13)
    by (simp add: login_def get_prop_def dbGet_admin_def record_effect_def Let_def
        bcrypt_compare_def)
  have l2: "login rt body2 sess2 w =
      (invalid_credentials, sess2, record_effect (Db (SelectAdmin (js_prop body2 ''username''))) w)"
    using assms(6-9,11,14)
    by (simp add: login_def get_prop_def dbGet_admin_def record_effect_def Let_def)
  show ?thesis
    by (simp add: l1 l2 invalid_credentials_def json_error_def)
qed

text \<open>
  C10 does not hold of the server. A password that is present but is not a string, such as
  the number 123, is never the password of an account, so a login with it fails for every
  username. For a username that names an account, \<open>bcrypt.compare\<close> rejects the password
  and the request is answered by the error handler, status 500; for a username that names
  no account the answer is status 401 with \<open>Invalid credentials.\<close>. The two answers differ,
  and the first tells that the account exists.
\<close>

theorem login_reveals_username:
  assumes "body1 \<noteq> JUndefined" and "body1 \<noteq> JNull"
    and "truthy (js_prop body1 ''username'')" and "truthy (js_prop body1 ''password'')"
    and "\<not> is_string (js_prop body1 ''password'')"
    and "body2 \<noteq> JUndefined" and "body2 \<noteq> JNull"
    and "truthy (js_prop body2 ''username'')" and "truthy (js_prop body2 ''password'')"
    and "\<not> db_fails rt (SelectAdmin (js_prop body1 ''username''))"
    and "\<not> db_fails rt (SelectAdmin (js_prop body2 ''username''))"
    and "find (\<lambda>a. username a \<noteq> None \<and> username a = bound_text rt (js_prop body1 ''username''))
           (admin_users (db w)) = Some user"
    and "find (\<lambda>a. username a \<noteq> None \<and> username a = bound_text rt (js_prop body2 ''username''))
           (admin_users (db w)) = None"
  shows "fst (login rt body1 sess1 w) = error_handler ''data and hash must be strings''
     \<and> fst (login rt body1 sess1 w) =
         \<lparr>status = 500,
          content = Json (JObj [(''error'', JStr ''An internal server error occurred.'')])\<rparr>
     \<and> fst (login rt body2 sess2 w) =
         \<lparr>status = 401, content = Json (JObj [(''error'', JStr ''Invalid credentials.'')])\<rparr>
     \<and> fst (login rt body1 sess1 w) \<noteq> fst (login rt body2 sess2 w)"
proof -
  have l1: "login rt body1 sess1 w =
      (error_handler ''data and hash must be strings'', sess1,
       record_effect (Db (SelectAdmin (js_prop body1 ''username''))) w)"
    using assms(1-4,10,12) bcrypt_compare_not_string [OF assms(5)]
    by (simp add: login_def get_prop_def dbGet_admin_def record_effect_def Let_def)
  have l2: "login rt body2 sess2 w =
      (invalid_credentials, sess2, record_effect (Db (SelectAdmin (js_prop body2 ''username''))) w)"
    using assms(6-9,11,13)
    by (simp add: login_def get_prop_def dbGet_admin_def record_effect_def Let_def)
  show ?thesis
    by (simp add: l1 l2 invalid_credentials_def json_error_def error_handler_def)
qed

theorem login_reveals_username_witness:
  "truthy (js_prop (numeric_password ''root'') ''username'')
   \<and> truthy (js_prop (numeric_password ''root'') ''password'')
   \<and> truthy (js_prop (numeric_password ''nobody'') ''username'')
   \<and> truthy (js_prop (numeric_password ''nobody'') ''password'')
   \<and> find (\<lambda>a. username a = Some ''root'') (admin_users (db demo_world))
       = Some \<lparr>admin_id = 1, username = Some ''root'', password = ''hash:secret''\<rparr>
   \<and> find (\<lambda>a. username a = Some ''nobody'') (admin_users (db demo_world)) = None
   \<and> fst (login demo_env (numeric_password ''root'') None demo_world)
       = \<lparr>status = 500,
          content = Json (JObj [(''error'', JStr ''An internal server error occurred.'')])\<rparr>
   \<and> fst (login demo_env (numeric_password ''nobody'') None demo_world)
       = \<lparr>status = 401, content = Json (JObj [(''error'', JStr ''Invalid credentials.'')])\<rparr>
   \<and> fst (login demo_env (numeric_password ''root'') None demo_world)
       \<noteq> fst (login demo_env (numeric_password ''nobody'') None demo_world)"
proof -
  let ?b1 = "numeric_password ''root''"
  let ?b2 = "numeric_password ''nobody''"
  let ?u = "\<lparr>admin_id = 1, username = Some ''root'', password = ''hash:secret''\<rparr>"
  have a1: "?b1 \<noteq> JUndefined" and a2: "?b1 \<noteq> JNull"
    and a3: "truthy (js_prop ?b1 ''username'')" and a4: "truthy (js_prop ?b1 ''password'')"
    and a5: "\<not> is_string (js_prop ?b1 ''password'')"
    and b1: "?b2 \<noteq> JUndefined" and b2: "?b2 \<noteq> JNull"
    and b3: "truthy (js_prop ?b2 ''username'')" and b4: "truthy (js_prop ?b2 ''password'')"
    by (simp_all add: numeric_password_def)
  have c1: "\<not> db_fails demo_env (SelectAdmin (js_prop ?b1 ''username''))"
    and c2: "\<not> db_fails demo_env (SelectAdmin (js_prop ?b2 ''username''))"
    by (simp_all add: demo_env_def)
  have f0: "find (\<lambda>a. username a = Some ''root'') (admin_users (db demo_world)) = Some ?u"
    and n0: "find (\<lambda>a. username a = Some ''nobody'') (admin_users (db demo_world)) = None"
    by (simp_all add: demo_world_def demo_db_def)
  have f: "find (\<lambda>a. username a \<noteq> None
                     \<and> username a = bound_text demo_env (js_prop ?b1 ''username''))
             (admin_users (db demo_world)) = Some ?u"
    by (simp add: numeric_password_def bound_text_def demo_world_def demo_db_def)
  have n: "find (\<lambda>a. username a \<noteq> None
                     \<and> username a = bound_text demo_env (js_prop ?b2 ''username''))
             (admin_users (db demo_world)) = None"
    by (simp add: numeric_password_def bound_text_def demo_world_def demo_db_def)
  note t = login_reveals_username [OF a1 a2 a3 a4 a5 b1 b2 b3 b4 c1 c2 f n, of None None]
  have r1: "fst (login demo_env ?b1 None demo_world)
       = \<lparr>status = 500,
          content = Json (JObj [(''error'', JStr ''An internal server error occurred.'')])\<rparr>"
    using t by (elim conjE)
  have r2: "fst (login demo_env ?b2 None demo_world)
       = \<lparr>status = 401, content = Json (JObj [(''error'', JStr ''Invalid credentials.'')])\<rparr>"
    using t by (elim conjE)
  have r3: "fst (login demo_env ?b1 None demo_world) \<noteq> fst (login demo_env ?b2 None demo_world)"
    using t by (elim conjE)
  show ?thesis
    by (intro conjI a3 a4 b3 b4 f0 n0 r1 r2 r3)
qed

section \<open>The reconciliation pass\<close>

lemma refresh_eq:
  "refresh rt d w =
     (refreshed rt d,
      w\<lparr>db := (db w)\<lparr>donations := store_after rt (donations (db w)) d\<rparr>,
        trace := trace w @ refresh_effects rt d\<rparr>)"
  by (simp add: refresh_def refreshed_def store_after_def refresh_effects_def
      written_status_def wanted_status_def dbRun_def record_effect_def set_status_def Let_def
      split: sum.splits)

lemma refresh_all_eq:
  "refresh_all rt rows w =
     (map (refreshed rt) rows,
      w\<lparr>db := (db w)\<lparr>donations := foldl (store_after rt) (donations (db w)) rows\<rparr>,
        trace := trace w @ concat (map (refresh_effects rt) rows)\<rparr>)"
proof (induction rows arbitrary: w)
  case Nil
  show ?case by simp
next
  case (Cons d ds)
  show ?case by (simp add: refresh_eq Cons.IH)
qed

lemma refreshed_id [simp]: "donation_id (refreshed rt d) = donation_id d"
  by (simp add: refreshed_def split: option.splits)

lemma refreshed_created_at [simp]: "created_at (refreshed rt d) = created_at d"
  by (simp add: refreshed_def split: option.splits)

lemma store_after_one:
  assumes "distinct (map donation_id S)" and "d \<in> set S"
  shows "store_after rt S d = map (\<lambda>r. if r = d then refreshed rt d else r) S"
proof -
  have inj: "inj_on donation_id (set S)"
    using assms(1) by (simp add: distinct_map)
  have same: "donation_id r = donation_id d \<longleftrightarrow> r = d" if "r \<in> set S" for r
    using inj that assms(2) by (auto dest: inj_onD)
  show ?thesis
  proof (cases "written_status rt d")
    case None
    then have "refreshed rt d = d" by (simp add: refreshed_def)
    then have "map (\<lambda>r. if r = d then refreshed rt d else r) S = S"
      by (intro map_idI) simp
    then show ?thesis using None by (simp add: store_after_def)
  next
    case (Some st)
    then have r: "refreshed rt d = d\<lparr>payment_intent_status := st\<rparr>"
      by (simp add: refreshed_def)
    have "set_status (donation_id d) st S = map (\<lambda>r. if r = d then refreshed rt d else r) S"
      unfolding set_status_def using same by (intro map_cong) (auto simp: r)
    then show ?thesis using Some by (simp add: store_after_def)
  qed
qed

lemma foldl_store_after:
  assumes "distinct (map donation_id S)" and "set rows \<subseteq> set S"
    and "distinct (map donation_id rows)"
  shows "foldl (store_after rt) S rows =
         map (\<lambda>r. if r \<in> set rows then refreshed rt r else r) S"
  using assms
proof (induction rows arbitrary: S)
  case Nil
  show ?case by simp
next
  case (Cons d ds)
  let ?h = "\<lambda>r. if r = d then refreshed rt d else r"
  let ?g = "\<lambda>r. if r \<in> set ds then refreshed rt r else r"
  have dS: "d \<in> set S" using Cons.prems(2) by simp
  have fresh: "donation_id d \<notin> donation_id ` set ds" using Cons.prems(3) by simp
  have S1: "store_after rt S d = map ?h S"
    using Cons.prems(1) dS by (rule store_after_one)
  have ids: "map donation_id (map ?h S) = map donation_id S"
    by (simp add: comp_def if_distrib[of donation_id] cong: if_cong)
  have d1: "distinct (map donation_id (map ?h S))"
    using Cons.prems(1) by (simp only: ids)
  have sub: "set ds \<subseteq> set (map ?h S)"
  proof
    fix x assume x: "x \<in> set ds"
    then have "x \<in> set S" using Cons.prems(2) by auto
    moreover have "x \<noteq> d" using x fresh by auto
    ultimately show "x \<in> set (map ?h S)" by (auto simp: image_iff)
  qed
  have d2: "distinct (map donation_id ds)" using Cons.prems(3) by simp
  have "foldl (store_after rt) S (d # ds) = foldl (store_after rt) (map ?h S) ds"
    by (simp add: S1)
  also have "\<dots> = map ?g (map ?h S)"
    using d1 sub d2 by (rule Cons.IH)
  also have "\<dots> = map (\<lambda>r. if r \<in> set (d # ds) then refreshed rt r else r) S"
  proof -
    have "refreshed rt d \<notin> set ds"
    proof
      assume "refreshed rt d \<in> set ds"
      then have "donation_id (refreshed rt d) \<in> donation_id ` set ds" by (rule imageI)
      then show False using fresh by simp
    qed
    then show ?thesis by auto
  qed
  finally show ?case .
qed

lemma set_order_by [simp]: "set (order_by_created_at_desc rows) = set rows"
  by (simp add: order_by_created_at_desc_def)

lemma mset_order_by [simp]: "mset (order_by_created_at_desc rows) = mset rows"
  by (simp add: order_by_created_at_desc_def)

lemma distinct_ids_order_by:
  "distinct (map donation_id (order_by_created_at_desc rows)) = distinct (map donation_id rows)"
proof -
  have "mset (map donation_id (order_by_created_at_desc rows)) = mset (map donation_id rows)"
    by simp
  then show ?thesis by (rule mset_eq_imp_distinct_iff)
qed

lemma sorted_order_by:
  "sorted_wrt (\<lambda>a b. created_at b \<le> created_at a) (order_by_created_at_desc rows)"
proof -
  have "sorted (map (\<lambda>r. - int (created_at r)) (order_by_created_at_desc rows))"
    unfolding order_by_created_at_desc_def by (rule sorted_sort_key)
  then show ?thesis by (simp add: sorted_map)
qed

lemma store_after_pass:
  assumes "distinct (map donation_id S)"
  shows "foldl (store_after rt) S (order_by_created_at_desc S) = map (refreshed rt) S"
proof -
  have "foldl (store_after rt) S (order_by_created_at_desc S) =
        map (\<lambda>r. if r \<in> set (order_by_created_at_desc S) then refreshed rt r else r) S"
    using assms by (intro foldl_store_after) (simp_all add: distinct_ids_order_by)
  also have "\<dots> = map (refreshed rt) S" by (intro map_cong) simp_all
  finally show ?thesis .
qed

lemma list_donations_eq:
  assumes "sess \<noteq> None" and "\<not> db_fails rt SelectDonations"
    and "distinct (map donation_id (donations (db w)))"
  shows "list_donations rt sess w =
     (\<lparr>status = 200,
       content = Donations (map (refreshed rt) (order_by_created_at_desc (donations (db w))))\<rparr>,
      w\<lparr>db := (db w)\<lparr>donations := map (refreshed rt) (donations (db w))\<rparr>,
        trace := trace w @ Db SelectDonations #
                 concat (map (refresh_effects rt) (order_by_created_at_desc (donations (db w))))\<rparr>)"
  using assms
  by (cases sess)
    (simp_all add: list_donations_def dbAll_donations_def record_effect_def refresh_all_eq
      store_after_pass Let_def)

lemma demo_order:
  "order_by_created_at_desc
     [demo_donation 1 p1 s1 10, demo_donation 2 p2 s2 20, demo_donation 3 p3 s3 30]
   = [demo_donation 3 p3 s3 30, demo_donation 2 p2 s2 20, demo_donation 1 p1 s1 10]"
  by (simp add: order_by_created_at_desc_def demo_donation_def)

lemma list3_eqI:
  assumes "length xs = 3" and "xs ! 0 = a" and "xs ! 1 = b" and "xs ! 2 = c"
  shows "xs = [a, b, c]"
proof -
  obtain a' b' c' where xs: "xs = [a', b', c']"
    using assms(1) by (auto simp: numeral_3_eq_3 length_Suc_conv)
  show ?thesis using assms(2,3,4) by (simp add: xs)
qed

text \<open>
  C2. For an authenticated request, a store whose rows have distinct identifiers and that
  answers the query, a processor that answers the lookup of every pending donation, and a
  store that carries out the updates asked for: the answer is status 200 with all donations
  in descending order of creation time, each reconciled as the specification says; the
  store holds the same reconciled donations; and the calls recorded are the query followed,
  row by row in the order of the answer, by one lookup for each pending donation and one
  update exactly when the reported status differs from the stored one. A donation that is
  not pending is returned as stored and causes no call.
\<close>

theorem list_donations_reconciles:
  assumes "sess \<noteq> None" and "\<not> db_fails rt SelectDonations"
    and "distinct (map donation_id (donations (db w)))"
    and "\<forall>d \<in> set (donations (db w)). payment_intent_status d = ''pending'' \<longrightarrow>
           stripe_retrieve rt (payment_intent_id d) = Inr (upstream (payment_intent_id d))"
    and "\<forall>d \<in> set (donations (db w)).
           \<not> db_fails rt (UpdateStatusById (upstream (payment_intent_id d)) (donation_id d))"
  shows "\<exists>rows w'.
       list_donations rt sess w = (\<lparr>status = 200, content = Donations rows\<rparr>, w')
     \<and> rows = map (reconcile_spec upstream) (order_by_created_at_desc (donations (db w)))
     \<and> sorted_wrt (\<lambda>a b. created_at b \<le> created_at a) rows
     \<and> mset (map donation_id rows) = mset (map donation_id (donations (db w)))
     \<and> donations (db w') = map (reconcile_spec upstream) (donations (db w))
     \<and> trace w' = trace w @ Db SelectDonations #
           concat (map (effects_spec upstream) (order_by_created_at_desc (donations (db w))))
     \<and> (\<forall>d. payment_intent_status d \<noteq> ''pending'' \<longrightarrow>
            reconcile_spec upstream d = d \<and> effects_spec upstream d = [])"
proof -
  let ?S = "donations (db w)"
  let ?rows = "order_by_created_at_desc ?S"
  have w: "wanted_status rt d =
             (if payment_intent_status d = ''pending''
                 \<and> upstream (payment_intent_id d) \<noteq> payment_intent_status d
              then Some (upstream (payment_intent_id d)) else None)"
    if "d \<in> set ?S" for d
    using assms(4) that by (auto simp: wanted_status_def)
  have r: "refreshed rt d = reconcile_spec upstream d" if "d \<in> set ?S" for d
    using assms(5) that by (simp add: refreshed_def written_status_def w reconcile_spec_def)
  have e: "refresh_effects rt d = effects_spec upstream d" if "d \<in> set ?S" for d
    using that by (simp add: refresh_effects_def effects_spec_def w)
  have rows: "map (refreshed rt) ?rows = map (reconcile_spec upstream) ?rows"
    by (intro map_cong) (simp_all add: r)
  have store: "map (refreshed rt) ?S = map (reconcile_spec upstream) ?S"
    by (intro map_cong) (simp_all add: r)
  have effs: "map (refresh_effects rt) ?rows = map (effects_spec upstream) ?rows"
    by (intro map_cong) (simp_all add: e)
  have ca: "created_at (reconcile_spec upstream d) = created_at d" for d
    by (simp add: reconcile_spec_def)
  have di: "donation_id (reconcile_spec upstream d) = donation_id d" for d
    by (simp add: reconcile_spec_def)
  have sorted: "sorted_wrt (\<lambda>a b. created_at b \<le> created_at a)
                  (map (reconcile_spec upstream) ?rows)"
    using sorted_order_by [of ?S] by (simp add: sorted_wrt_map ca)
  have other: "\<forall>d. payment_intent_status d \<noteq> ''pending'' \<longrightarrow>
            reconcile_spec upstream d = d \<and> effects_spec upstream d = []"
    by (simp add: reconcile_spec_def effects_spec_def)
  show ?thesis
    using list_donations_eq [OF assms(1,2,3)] sorted other
    by (simp add: rows store effs multiset.map_comp comp_def di)
qed

theorem list_donations_reconciles_witness:
  "demo_session \<noteq> None
   \<and> \<not> db_fails demo_env SelectDonations
   \<and> distinct (map donation_id (donations (db demo_world)))
   \<and> stripe_retrieve demo_env ''pi_2'' = Inr ''succeeded''
   \<and> \<not> db_fails demo_env (UpdateStatusById ''succeeded'' 2)
   \<and> (\<exists>w'. list_donations demo_env demo_session demo_world =
          (\<lparr>status = 200,
            content = Donations [demo_donation 3 ''pi_3'' ''canceled'' 30,
                                 demo_donation 2 ''pi_2'' ''succeeded'' 20,
                                 demo_donation 1 ''pi_1'' ''succeeded'' 10]\<rparr>, w')
        \<and> donations (db w') = [demo_donation 1 ''pi_1'' ''succeeded'' 10,
                                demo_donation 2 ''pi_2'' ''succeeded'' 20,
                                demo_donation 3 ''pi_3'' ''canceled'' 30]
        \<and> trace w' = [Db SelectDonations, StripeRetrieve ''pi_2'',
                       Db (UpdateStatusById ''succeeded'' 2)])"
proof -
  let ?up = "\<lambda>p. if p = ''pi_1'' then ''canceled''
                 else if p = ''pi_2'' then ''succeeded'' else ''pending''"
  have S: "donations (db demo_world) =
             [demo_donation 1 ''pi_1'' ''succeeded'' 10,
              demo_donation 2 ''pi_2'' ''pending'' 20,
              demo_donation 3 ''pi_3'' ''canceled'' 30]"
    and T: "trace demo_world = []"
    by (simp_all add: demo_world_def demo_db_def)
  have h1: "demo_session \<noteq> None" by (simp add: demo_session_def)
  have h2: "\<not> db_fails demo_env SelectDonations" by (simp add: demo_env_def)
  have h3: "distinct (map donation_id (donations (db demo_world)))"
    by (simp add: S demo_donation_def)
  have h4: "\<forall>d \<in> set (donations (db demo_world)). payment_intent_status d = ''pending'' \<longrightarrow>
           stripe_retrieve demo_env (payment_intent_id d) = Inr (?up (payment_intent_id d))"
    by (simp add: demo_env_def)
  have h5: "\<forall>d \<in> set (donations (db demo_world)).
           \<not> db_fails demo_env (UpdateStatusById (?up (payment_intent_id d)) (donation_id d))"
    by (simp add: demo_env_def)
  have g1: "stripe_retrieve demo_env ''pi_2'' = Inr ''succeeded''"
    and g2: "\<not> db_fails demo_env (UpdateStatusById ''succeeded'' 2)"
    by (simp_all add: demo_env_def)
  have r: "reconcile_spec ?up (demo_donation 1 ''pi_1'' ''succeeded'' 10)
             = demo_donation 1 ''pi_1'' ''succeeded'' 10"
      "reconcile_spec ?up (demo_donation 2 ''pi_2'' ''pending'' 20)
             = demo_donation 2 ''pi_2'' ''succeeded'' 20"
      "reconcile_spec ?up (demo_donation 3 ''pi_3'' ''canceled'' 30)
             = demo_donation 3 ''pi_3'' ''canceled'' 30"
    by (simp_all add: reconcile_spec_def demo_donation_def)
  have e: "effects_spec ?up (demo_donation 1 ''pi_1'' ''succeeded'' 10) = []"
      "effects_spec ?up (demo_donation 2 ''pi_2'' ''pending'' 20)
             = [StripeRetrieve ''pi_2'', Db (UpdateStatusById ''succeeded'' 2)]"
      "effects_spec ?up (demo_donation 3 ''pi_3'' ''canceled'' 30) = []"
    by (simp_all add: effects_spec_def demo_donation_def)
  from list_donations_reconciles [OF h1 h2 h3 h4 h5]
  obtain rows w' where
    a: "list_donations demo_env demo_session demo_world
          = (\<lparr>status = 200, content = Donations rows\<rparr>, w')"
    and b: "rows = map (reconcile_spec ?up)
                     (order_by_created_at_desc (donations (db demo_world)))"
    and c: "donations (db w') = map (reconcile_spec ?up) (donations (db demo_world))"
    and d: "trace w' = trace demo_world @ Db SelectDonations #
           concat (map (effects_spec ?up)
                     (order_by_created_at_desc (donations (db demo_world))))"
    by blast
  have b': "rows = [demo_donation 3 ''pi_3'' ''canceled'' 30,
                    demo_donation 2 ''pi_2'' ''succeeded'' 20,
                    demo_donation 1 ''pi_1'' ''succeeded'' 10]"
    unfolding b S demo_order by (simp only: list.map r)
  have c': "donations (db w') = [demo_donation 1 ''pi_1'' ''succeeded'' 10,
                                demo_donation 2 ''pi_2'' ''succeeded'' 20,
                                demo_donation 3 ''pi_3'' ''canceled'' 30]"
    unfolding c S by (simp only: list.map r)
  have d': "trace w' = [Db SelectDonations, StripeRetrieve ''pi_2'',
                       Db (UpdateStatusById ''succeeded'' 2)]"
    unfolding d S T demo_order by (simp only: list.map e concat.simps append.simps)
  show ?thesis using h1 h2 h3 g1 g2 a b' c' d' by blast
qed

text \<open>
  C3. For an authenticated request and a store whose rows have distinct identifiers and
  that answers the query, compare the pass with the pass in which the lookups of the
  payment intents in \<open>K\<close> fail. Both are answered 200 with all donations in the same order;
  the store keeps the same rows in the same order; every donation whose payment intent is
  not in \<open>K\<close> is returned and stored exactly as in the pass without the failures; and a
  donation whose lookup failed is returned as it was stored.
\<close>

theorem list_donations_tolerates_lookup_failure:
  assumes "sess \<noteq> None" and "\<not> db_fails rt SelectDonations"
    and "distinct (map donation_id (donations (db w)))"
  shows "\<exists>rows rows' w1 w2.
       list_donations rt sess w = (\<lparr>status = 200, content = Donations rows\<rparr>, w1)
     \<and> list_donations (failing_lookups K err rt) sess w
         = (\<lparr>status = 200, content = Donations rows'\<rparr>, w2)
     \<and> map donation_id rows
         = map donation_id (order_by_created_at_desc (donations (db w)))
     \<and> map donation_id rows'
         = map donation_id (order_by_created_at_desc (donations (db w)))
     \<and> map donation_id (donations (db w2)) = map donation_id (donations (db w))
     \<and> (\<forall>i < length rows'.
           if payment_intent_id (rows' ! i) \<in> K
           then rows' ! i = order_by_created_at_desc (donations (db w)) ! i
           else rows' ! i = rows ! i)
     \<and> (\<forall>i < length (donations (db w2)).
           if payment_intent_id (donations (db w2) ! i) \<in> K
           then donations (db w2) ! i = donations (db w) ! i
           else donations (db w2) ! i = donations (db w1) ! i)"
proof -
  let ?S = "donations (db w)"
  let ?rows = "order_by_created_at_desc ?S"
  let ?rt = "failing_lookups K err rt"
  have f: "refreshed ?rt d = (if payment_intent_id d \<in> K then d else refreshed rt d)" for d
    by (simp add: refreshed_def written_status_def wanted_status_def failing_lookups_def
        split: sum.splits)
  have p: "payment_intent_id (refreshed x d) = payment_intent_id d" for x d
    by (simp add: refreshed_def split: option.splits)
  have sel: "\<not> db_fails ?rt SelectDonations"
    using assms(2) by (simp add: failing_lookups_def)
  have ids: "map donation_id (map (refreshed x) xs) = map donation_id xs" for x xs
    by (simp add: comp_def)
  show ?thesis
    using list_donations_eq [OF assms(1,2,3)] list_donations_eq [OF assms(1) sel assms(3)]
    by (simp add: ids p) (simp add: f)
qed

theorem list_donations_tolerates_lookup_failure_witness:
  "demo_session \<noteq> None
   \<and> \<not> db_fails demo_env SelectDonations
   \<and> distinct (map donation_id (donations (db demo_world_two_pending)))
   \<and> stripe_retrieve (failing_lookups {''pi_1''} ''api_connection_error'' demo_env) ''pi_1''
       = Inl ''api_connection_error''
   \<and> (\<exists>w1 w2.
        list_donations demo_env demo_session demo_world_two_pending =
          (\<lparr>status = 200,
            content = Donations [demo_donation 3 ''pi_3'' ''canceled'' 30,
                                 demo_donation 2 ''pi_2'' ''succeeded'' 20,
                                 demo_donation 1 ''pi_1'' ''canceled'' 10]\<rparr>, w1)
      \<and> list_donations (failing_lookups {''pi_1''} ''api_connection_error'' demo_env)
           demo_session demo_world_two_pending =
          (\<lparr>status = 200,
            content = Donations [demo_donation 3 ''pi_3'' ''canceled'' 30,
                                 demo_donation 2 ''pi_2'' ''succeeded'' 20,
                                 demo_donation 1 ''pi_1'' ''pending'' 10]\<rparr>, w2)
      \<and> donations (db w2) = [demo_donation 1 ''pi_1'' ''pending'' 10,
                              demo_donation 2 ''pi_2'' ''succeeded'' 20,
                              demo_donation 3 ''pi_3'' ''canceled'' 30])"
proof -
  let ?rt = "failing_lookups {''pi_1''} ''api_connection_error'' demo_env"
  let ?w = demo_world_two_pending
  let ?d1 = "demo_donation 1 ''pi_1'' ''pending'' 10"
  let ?d2 = "demo_donation 2 ''pi_2'' ''pending'' 20"
  let ?d3 = "demo_donation 3 ''pi_3'' ''canceled'' 30"
  have S: "donations (db ?w) = [?d1, ?d2, ?d3]"
    by (simp add: demo_world_two_pending_def demo_db_def)
  have O: "order_by_created_at_desc (donations (db ?w)) = [?d3, ?d2, ?d1]"
    unfolding S by (rule demo_order)
  have h1: "demo_session \<noteq> None" by (simp add: demo_session_def)
  have h2: "\<not> db_fails demo_env SelectDonations" by (simp add: demo_env_def)
  have h3: "distinct (map donation_id (donations (db ?w)))"
    by (simp add: S demo_donation_def)
  have g: "stripe_retrieve ?rt ''pi_1'' = Inl ''api_connection_error''"
    by (simp add: failing_lookups_def)
  have r: "refreshed demo_env ?d1 = demo_donation 1 ''pi_1'' ''canceled'' 10"
      "refreshed demo_env ?d2 = demo_donation 2 ''pi_2'' ''succeeded'' 20"
      "refreshed demo_env ?d3 = ?d3"
    by (simp_all add: refreshed_def written_status_def wanted_status_def demo_env_def
        demo_donation_def)
  have base: "fst (list_donations demo_env demo_session ?w) =
          \<lparr>status = 200,
            content = Donations [?d3, demo_donation 2 ''pi_2'' ''succeeded'' 20,
                                 demo_donation 1 ''pi_1'' ''canceled'' 10]\<rparr>"
    unfolding list_donations_eq [OF h1 h2 h3] S demo_order fst_conv
    by (simp only: list.map r)
  from list_donations_tolerates_lookup_failure [OF h1 h2 h3,
      of "{''pi_1''}" "''api_connection_error''"]
  obtain rows rows' w1 w2 where
    a: "list_donations demo_env demo_session ?w = (\<lparr>status = 200, content = Donations rows\<rparr>, w1)"
    and b: "list_donations ?rt demo_session ?w = (\<lparr>status = 200, content = Donations rows'\<rparr>, w2)"
    and c: "map donation_id rows' = map donation_id (order_by_created_at_desc (donations (db ?w)))"
    and d: "map donation_id (donations (db w2)) = map donation_id (donations (db ?w))"
    and e: "\<forall>i < length rows'.
           if payment_intent_id (rows' ! i) \<in> {''pi_1''}
           then rows' ! i = order_by_created_at_desc (donations (db ?w)) ! i
           else rows' ! i = rows ! i"
    and f: "\<forall>i < length (donations (db w2)).
           if payment_intent_id (donations (db w2) ! i) \<in> {''pi_1''}
           then donations (db w2) ! i = donations (db ?w) ! i
           else donations (db w2) ! i = donations (db w1) ! i"
    by blast
  have rows: "rows = [?d3, demo_donation 2 ''pi_2'' ''succeeded'' 20,
                      demo_donation 1 ''pi_1'' ''canceled'' 10]"
    using base a by simp
  have w1: "donations (db w1) = [demo_donation 1 ''pi_1'' ''canceled'' 10,
                                 demo_donation 2 ''pi_2'' ''succeeded'' 20, ?d3]"
  proof -
    have "donations (db (snd (list_donations demo_env demo_session ?w)))
            = map (refreshed demo_env) [?d1, ?d2, ?d3]"
      unfolding list_donations_eq [OF h1 h2 h3] S by simp
    then show ?thesis using a by (simp only: list.map r snd_conv)
  qed
  have p: "payment_intent_id (demo_donation i pid st t) = pid" for i pid st t
    by (simp add: demo_donation_def)
  have len': "length rows' = 3"
    using arg_cong [OF c, of length] by (simp add: O)
  have len2: "length (donations (db w2)) = 3"
    using arg_cong [OF d, of length] by (simp add: S)
  have e0: "rows' ! 0 = ?d3"
    using e [rule_format, of 0] len' by (auto simp: O rows p split: if_splits)
  have e1: "rows' ! 1 = demo_donation 2 ''pi_2'' ''succeeded'' 20"
    using e [rule_format, of 1] len' by (auto simp: O rows p split: if_splits)
  have e2: "rows' ! 2 = ?d1"
    using e [rule_format, of 2] len' by (auto simp: O rows p split: if_splits)
  have rows': "rows' = [?d3, demo_donation 2 ''pi_2'' ''succeeded'' 20, ?d1]"
    using len' e0 e1 e2 by (rule list3_eqI)
  have f0: "donations (db w2) ! 0 = ?d1"
    using f [rule_format, of 0] len2 by (auto simp: S w1 p split: if_splits)
  have f1: "donations (db w2) ! 1 = demo_donation 2 ''pi_2'' ''succeeded'' 20"
    using f [rule_format, of 1] len2 by (auto simp: S w1 p split: if_splits)
  have f2: "donations (db w2) ! 2 = ?d3"
    using f [rule_format, of 2] len2 by (auto simp: S w1 p split: if_splits)
  have store: "donations (db w2) = [?d1, demo_donation 2 ''pi_2'' ''succeeded'' 20, ?d3]"
    using len2 f0 f1 f2 by (rule list3_eqI)
  show ?thesis using h1 h2 h3 g a b rows rows' store by blast
qed

section \<open>The invariant of the store\<close>

lemma store_ok_distinct: "store_ok d \<Longrightarrow> distinct (map donation_id (donations d))"
  by (simp add: store_ok_def)

lemma store_ok_empty: "store_ok (db empty_world)"
  by (simp add: store_ok_def empty_world_def)

lemma store_ok_map:
  assumes "store_ok d" and "\<And>r. donation_id (f r) = donation_id r"
  shows "store_ok (d\<lparr>donations := map f (donations d)\<rparr>)"
proof -
  have c: "donation_id \<circ> f = donation_id"
    by (rule ext) (simp add: assms(2))
  have "list_all (\<lambda>r. donation_id r \<le> donations_seq d) (map f (donations d))"
    using assms by (simp add: store_ok_def list_all_iff)
  then show ?thesis using assms(1) by (simp add: store_ok_def c)
qed

lemma exec_store_ok:
  assumes "store_ok d" and "exec rt s d = Inr d'"
  shows "store_ok d'"
proof (cases s)
  case (InsertDonation amount em fname lname cname co pc pid st)
  define new where "new =
    \<lparr>donation_id = Suc (donations_seq d), donation_amount = amount, email = em,
     first_name = fname, last_name = lname, card_name = cname, country = co,
     postal_code = pc, payment_intent_id = pid, payment_intent_status = st,
     created_at = now rt\<rparr>"
  have d': "d' = d\<lparr>donations := donations d @ [new],
                     donations_seq := Suc (donations_seq d)\<rparr>"
    using assms(2) InsertDonation by (simp add: new_def)
  have le: "donation_id r \<le> donations_seq d" if "r \<in> set (donations d)" for r
    using assms(1) that by (simp add: store_ok_def list_all_iff)
  have "Suc (donations_seq d) \<notin> donation_id ` set (donations d)"
  proof
    assume "Suc (donations_seq d) \<in> donation_id ` set (donations d)"
    then obtain r where "r \<in> set (donations d)" "donation_id r = Suc (donations_seq d)"
      by auto
    then show False using le [of r] by simp
  qed
  moreover have "donation_id new = Suc (donations_seq d)" by (simp add: new_def)
  ultimately have "distinct (map donation_id (donations d @ [new]))"
    using assms(1) by (simp add: store_ok_def)
  moreover have "list_all (\<lambda>r. donation_id r \<le> Suc (donations_seq d)) (donations d @ [new])"
    using le by (auto simp: list_all_iff new_def le_Suc_eq)
  ultimately show ?thesis by (simp add: store_ok_def d')
next
  case (UpdateStatusByIntent st p)
  then have "d' = d\<lparr>donations := map (\<lambda>r. if Some (payment_intent_id r) = bound_text rt p
                        then r\<lparr>payment_intent_status := st\<rparr> else r) (donations d)\<rparr>"
    using assms(2) by simp
  then show ?thesis using assms(1) by (simp add: store_ok_map)
next
  case (UpdateStatusById st i)
  then have "d' = d\<lparr>donations := map (\<lambda>r. if donation_id r = i
                        then r\<lparr>payment_intent_status := st\<rparr> else r) (donations d)\<rparr>"
    using assms(2) by simp
  then show ?thesis using assms(1) by (simp add: store_ok_map)
next
  case (InsertAdmin u h)
  then show ?thesis
    using assms by (auto simp: store_ok_def split: if_splits)
qed (use assms in auto)

lemma dbRun_store_ok:
  assumes "store_ok (db w)"
  shows "store_ok (db (snd (dbRun rt s w)))"
proof (cases "exec rt s (db w)")
  case (Inl e)
  then show ?thesis using assms by (simp add: dbRun_def record_effect_def Let_def)
next
  case (Inr d')
  then have "store_ok d'" using assms exec_store_ok by blast
  then show ?thesis using assms Inr by (simp add: dbRun_def record_effect_def Let_def)
qed

lemma create_payment_intent_store_ok:
  assumes "store_ok (db w)"
  shows "store_ok (db (snd (create_payment_intent rt req_body w)))"
proof -
  have k: "store_ok (db (snd (dbRun rt s (record_effect x w))))" for s x
    using assms by (intro dbRun_store_ok) (simp add: record_effect_def)
  show ?thesis
    using assms k
    by (auto simp: create_payment_intent_def Let_def record_effect_def
        split: sum.splits prod.splits option.splits)
      (metis snd_conv)+
qed

lemma webhook_store_ok:
  assumes "store_ok (db w)"
  shows "store_ok (db (snd (webhook rt req_body signature w)))"
  using assms dbRun_store_ok [OF assms, of rt]
  by (auto simp: webhook_def split: sum.splits prod.splits) (metis snd_conv)+

lemma list_donations_store_ok:
  assumes "store_ok (db w)"
  shows "store_ok (db (snd (list_donations rt sess w)))"
proof (cases "sess = None \<or> db_fails rt SelectDonations")
  case True
  then show ?thesis
    using assms
    by (auto simp: list_donations_def dbAll_donations_def record_effect_def Let_def)
next
  case False
  have "db (snd (list_donations rt sess w))
          = (db w)\<lparr>donations := map (refreshed rt) (donations (db w))\<rparr>"
    using False assms by (simp add: list_donations_eq store_ok_distinct)
  then show ?thesis
    using assms by (simp add: store_ok_map)
qed

lemma store_ok_same:
  assumes "donations d' = donations d" and "donations_seq d' = donations_seq d"
  shows "store_ok d' = store_ok d"
  by (simp add: store_ok_def assms)

lemma check_setup_store_ok:
  assumes "store_ok (db w)"
  shows "store_ok (db (snd (check_setup rt w)))"
proof -
  have "db (snd (check_setup rt w)) = db w"
    by (simp add: check_setup_def dbGet_count_def record_effect_def Let_def)
  then show ?thesis using assms by simp
qed

lemma register_store_ok:
  assumes "store_ok (db w)"
  shows "store_ok (db (snd (register rt req_body sess w)))"
proof -
  have "donations (db (snd (register rt req_body sess w))) = donations (db w)
      \<and> donations_seq (db (snd (register rt req_body sess w))) = donations_seq (db w)"
    by (simp add: register_def get_prop_def dbGet_count_def dbRun_def record_effect_def Let_def
        split: sum.splits)
  then show ?thesis using assms store_ok_same by blast
qed

lemma login_store_ok:
  assumes "store_ok (db w)"
  shows "store_ok (db (snd (snd (login rt req_body sess w))))"
proof -
  have "db (snd (snd (login rt req_body sess w))) = db w"
    by (simp add: login_def get_prop_def dbGet_admin_def record_effect_def Let_def
        split: sum.splits option.splits)
  then show ?thesis using assms by simp
qed

lemma add_user_store_ok:
  assumes "store_ok (db w)"
  shows "store_ok (db (snd (add_user rt req_body sess w)))"
proof -
  have "donations (db (snd (add_user rt req_body sess w))) = donations (db w)
      \<and> donations_seq (db (snd (add_user rt req_body sess w))) = donations_seq (db w)"
    by (simp add: add_user_def get_prop_def dbRun_def record_effect_def Let_def
        split: sum.splits)
  then show ?thesis using assms store_ok_same by blast
qed

section \<open>Store failures\<close>

lemma create_payment_intent_store_failure:
  assumes "req_body \<noteq> JUndefined" and "req_body \<noteq> JNull"
    and "truthy (js_prop req_body ''donationAmount'')"
    and "truthy (js_prop req_body ''email'')"
    and "Number_js rt (js_prop req_body ''donationAmount'') = Inr n"
    and "\<not> isNaN (amountCents n)" and "\<not> le_zero (amountCents n)"
    and "stripe_create rt (amountCents n) (js_prop req_body ''email'') = Inr paymentIntent"
    and "db_fails rt
           (InsertDonation (amountCents n) (js_prop req_body ''email'')
              (or_null (js_prop req_body ''firstName'')) (or_null (js_prop req_body ''lastName''))
              (or_null (js_prop req_body ''cardName'')) (or_null (js_prop req_body ''country''))
              (or_null (js_prop req_body ''postalCode'')) (pi_id paymentIntent) ''pending'')"
  shows "fst (create_payment_intent rt req_body w) = error_handler db_error"
  using assms
  by (simp add: create_payment_intent_def get_prop_def Let_def dbRun_def)

lemma check_setup_store_failure:
  assumes "db_fails rt CountAdmins"
  shows "fst (check_setup rt w) = error_handler db_error"
  using assms by (simp add: check_setup_def dbGet_count_def Let_def)

lemma register_count_failure:
  assumes "req_body \<noteq> JUndefined" and "req_body \<noteq> JNull"
    and "truthy (js_prop req_body ''username'')" and "truthy (js_prop req_body ''password'')"
    and "db_fails rt CountAdmins"
  shows "fst (register rt req_body sess w) = error_handler db_error"
  using assms by (simp add: register_def get_prop_def dbGet_count_def Let_def)

lemma register_insert_failure:
  assumes "req_body \<noteq> JUndefined" and "req_body \<noteq> JNull"
    and "truthy (js_prop req_body ''username'')" and "truthy (js_prop req_body ''password'')"
    and "\<not> db_fails rt CountAdmins"
    and "sess \<noteq> None \<or> admin_users (db w) = []"
    and "bcrypt_hash rt (js_prop req_body ''password'') = Inr hash"
    and "db_fails rt (InsertAdmin (js_prop req_body ''username'') hash)"
  shows "fst (register rt req_body sess w) = error_handler db_error"
  using assms
  by (cases sess)
    (auto simp: register_def get_prop_def dbGet_count_def dbRun_def record_effect_def Let_def)

lemma login_store_failure:
  assumes "req_body \<noteq> JUndefined" and "req_body \<noteq> JNull"
    and "truthy (js_prop req_body ''username'')" and "truthy (js_prop req_body ''password'')"
    and "db_fails rt (SelectAdmin (js_prop req_body ''username''))"
  shows "fst (login rt req_body sess w) = error_handler db_error"
  using assms by (simp add: login_def get_prop_def dbGet_admin_def Let_def)

lemma list_donations_store_failure:
  assumes "sess \<noteq> None" and "db_fails rt SelectDonations"
  shows "fst (list_donations rt sess w) = error_handler db_error"
  using assms by (cases sess) (simp_all add: list_donations_def dbAll_donations_def Let_def)

lemma add_user_store_failure:
  assumes "sess \<noteq> None"
    and "req_body \<noteq> JUndefined" and "req_body \<noteq> JNull"
    and "truthy (js_prop req_body ''username'')" and "truthy (js_prop req_body ''password'')"
    and "bcrypt_hash rt (js_prop req_body ''password'') = Inr hash"
    and "db_fails rt (InsertAdmin (js_prop req_body ''username'') hash)"
  shows "fst (add_user rt req_body sess w) = error_handler db_error"
  using assms by (cases sess) (simp_all add: add_user_def get_prop_def dbRun_def Let_def)

lemma webhook_store_failure:
  assumes "webhook_event rt req_body signature = Inr event"
    and "get_prop event ''type'' = Inr (JStr ''payment_intent.succeeded'')"
    and "get_prop (js_prop event ''data'') ''object'' = Inr paymentIntent"
    and "get_prop paymentIntent ''id'' = Inr pid"
    and "db_fails rt (UpdateStatusByIntent ''succeeded'' pid)"
  shows "fst (webhook rt req_body signature w) = received"
    and "db (snd (webhook rt req_body signature w)) = db w"
  using assms by (simp_all add: webhook_def dbRun_def record_effect_def Let_def)

lemma status_error_handler: "status (error_handler err) = 500"
  by (simp add: error_handler_def json_error_def)

lemma status_received: "status received = 200"
  by (simp add: received_def json_ok_def)

text \<open>
  C8, as stated, fails on the webhook path: with a store that fails the update, the event
  \<open>payment_intent.succeeded\<close> for \<open>pi_2\<close>, in a body that the handler accepts, is still
  answered 200, and the donation stays pending.
\<close>

theorem store_failure_surfacing_counterexample:
  "fst (dbRun (failing_writes demo_env_parsing)
          (UpdateStatusByIntent ''succeeded'' (JStr ''pi_2'')) demo_world) = Some db_error
   \<and> fst (webhook
          (failing_writes demo_env_parsing)
          wrapped_event None demo_world)
       = \<lparr>status = 200, content = Json (JObj [(''received'', JBool True)])\<rparr>
   \<and> db (snd (webhook
          (failing_writes demo_env_parsing)
          wrapped_event None demo_world)) = demo_db"
proof -
  let ?e = "demo_event ''payment_intent.succeeded'' ''pi_2''"
  let ?rt = "failing_writes demo_env_parsing"
  have a: "fst (dbRun ?rt (UpdateStatusByIntent ''succeeded'' (JStr ''pi_2'')) demo_world)
             = Some db_error"
    by (simp add: dbRun_def failing_writes_def Let_def)
  have b: "fst (webhook ?rt wrapped_event None demo_world)
             = \<lparr>status = 200, content = Json (JObj [(''received'', JBool True)])\<rparr>"
    by (simp add: webhook_def webhook_event_def STRIPE_WEBHOOK_SECRET_def failing_writes_def
        JSON_parse_def wrapped_event_def
        demo_env_parsing_def demo_env_def demo_event_def get_prop_def dbRun_def Let_def
        received_def json_ok_def)
  have c: "db (snd (webhook ?rt wrapped_event None demo_world)) = demo_db"
    by (simp add: webhook_def webhook_event_def STRIPE_WEBHOOK_SECRET_def failing_writes_def
        JSON_parse_def wrapped_event_def
        demo_env_parsing_def demo_env_def demo_event_def get_prop_def dbRun_def Let_def
        record_effect_def demo_world_def)
  show ?thesis by (intro conjI a b c)
qed

text \<open>
  C8, amended. A statement that fails is answered with the 500 response wherever the
  handler waits for it outside the loop of the reconciliation pass: the insertion of
  \<open>/create-payment-intent\<close>, the count of \<open>/admin-api/check-setup\<close> and
  \<open>/admin-api/register\<close>, the insertions of \<open>/admin-api/register\<close> and \<open>/admin-api/users\<close>,
  the lookup of \<open>/admin-api/login\<close> and the query of \<open>/admin-api/donations\<close>. The webhook
  does not wait for its update: when the update fails the answer is still 200 with
  \<open>{received: true}\<close> and the store is unchanged.
\<close>

theorem store_failure_surfacing:
  "(req_body \<noteq> JUndefined \<and> req_body \<noteq> JNull
      \<and> truthy (js_prop req_body ''donationAmount'') \<and> truthy (js_prop req_body ''email'')
      \<and> Number_js rt (js_prop req_body ''donationAmount'') = Inr n
      \<and> \<not> isNaN (amountCents n) \<and> \<not> le_zero (amountCents n)
      \<and> stripe_create rt (amountCents n) (js_prop req_body ''email'') = Inr paymentIntent
      \<and> db_fails rt
           (InsertDonation (amountCents n) (js_prop req_body ''email'')
              (or_null (js_prop req_body ''firstName'')) (or_null (js_prop req_body ''lastName''))
              (or_null (js_prop req_body ''cardName'')) (or_null (js_prop req_body ''country''))
              (or_null (js_prop req_body ''postalCode'')) (pi_id paymentIntent) ''pending'')
    \<longrightarrow> fst (create_payment_intent rt req_body w) = error_handler db_error)
   \<and> (db_fails rt CountAdmins \<longrightarrow> fst (check_setup rt w) = error_handler db_error)
   \<and> (cred \<noteq> JUndefined \<and> cred \<noteq> JNull
        \<and> truthy (js_prop cred ''username'') \<and> truthy (js_prop cred ''password'')
        \<and> (db_fails rt CountAdmins
            \<or> (sess \<noteq> None \<or> admin_users (db w) = [])
              \<and> bcrypt_hash rt (js_prop cred ''password'') = Inr hash
              \<and> db_fails rt (InsertAdmin (js_prop cred ''username'') hash))
      \<longrightarrow> fst (register rt cred sess w) = error_handler db_error)
   \<and> (cred \<noteq> JUndefined \<and> cred \<noteq> JNull
        \<and> truthy (js_prop cred ''username'') \<and> truthy (js_prop cred ''password'')
        \<and> db_fails rt (SelectAdmin (js_prop cred ''username''))
      \<longrightarrow> fst (login rt cred sess w) = error_handler db_error)
   \<and> (sess \<noteq> None \<and> db_fails rt SelectDonations
      \<longrightarrow> fst (list_donations rt sess w) = error_handler db_error)
   \<and> (sess \<noteq> None \<and> cred \<noteq> JUndefined \<and> cred \<noteq> JNull
        \<and> truthy (js_prop cred ''username'') \<and> truthy (js_prop cred ''password'')
        \<and> bcrypt_hash rt (js_prop cred ''password'') = Inr hash
        \<and> db_fails rt (InsertAdmin (js_prop cred ''username'') hash)
      \<longrightarrow> fst (add_user rt cred sess w) = error_handler db_error)
   \<and> status (error_handler db_error) = 500
   \<and> (webhook_event rt payload signature = Inr event
        \<and> get_prop event ''type'' = Inr (JStr ''payment_intent.succeeded'')
        \<and> get_prop (js_prop event ''data'') ''object'' = Inr obj
        \<and> get_prop obj ''id'' = Inr pid
        \<and> db_fails rt (UpdateStatusByIntent ''succeeded'' pid)
      \<longrightarrow> fst (webhook rt payload signature w) = received
        \<and> status received = 200
        \<and> db (snd (webhook rt payload signature w)) = db w)"
proof (intro conjI impI; (elim conjE)?)
  show "status (error_handler db_error) = 500" by (rule status_error_handler)
  show "status received = 200" by (rule status_received)
qed (auto intro: create_payment_intent_store_failure check_setup_store_failure
    register_count_failure register_insert_failure login_store_failure
    list_donations_store_failure add_user_store_failure webhook_store_failure)

theorem store_failure_surfacing_witness:
  "fst (create_payment_intent (failing_store demo_env) (donation_request (JNum (Fin 10)))
          demo_world) = error_handler db_error
   \<and> fst (check_setup (failing_store demo_env) demo_world) = error_handler db_error
   \<and> fst (register (failing_store demo_env) (credentials ''eve'' ''pw'') None demo_world)
       = error_handler db_error
   \<and> fst (register (failing_writes demo_env) (credentials ''eve'' ''pw'') demo_session
            demo_world) = error_handler db_error
   \<and> fst (login (failing_store demo_env) (credentials ''root'' ''secret'') None demo_world)
       = error_handler db_error
   \<and> fst (list_donations (failing_store demo_env) demo_session demo_world)
       = error_handler db_error
   \<and> fst (add_user (failing_writes demo_env) (credentials ''eve'' ''pw'') demo_session
            demo_world) = error_handler db_error
   \<and> status (error_handler db_error) = 500
   \<and> fst (webhook
            (failing_writes demo_env_parsing)
            wrapped_event None demo_world) = received
   \<and> db (snd (webhook
            (failing_writes demo_env_parsing)
            wrapped_event None demo_world)) = demo_db"
proof -
  let ?don = "donation_request (JNum (Fin 10))"
  let ?cred = "credentials ''eve'' ''pw''"
  let ?root = "credentials ''root'' ''secret''"
  let ?e = "demo_event ''payment_intent.succeeded'' ''pi_2''"
  let ?p = "\<lparr>pi_id = ''pi_4'', client_secret = ''pi_4_secret''\<rparr>"
  let ?fs = "failing_store demo_env"
  let ?fw = "failing_writes demo_env"
  let ?fe = "failing_writes demo_env_parsing"
  have don: "?don \<noteq> JUndefined" "?don \<noteq> JNull"
      "truthy (js_prop ?don ''donationAmount'')" "truthy (js_prop ?don ''email'')"
      "Number_js ?fs (js_prop ?don ''donationAmount'') = Inr (Fin 10)"
    by (simp_all add: donation_request_def)
  have amt: "\<not> isNaN (amountCents (Fin 10))" "\<not> le_zero (amountCents (Fin 10))"
    by (simp_all add: amountCents_ten)
  have str: "stripe_create ?fs (amountCents (Fin 10)) (js_prop ?don ''email'') = Inr ?p"
    by (simp add: failing_store_def demo_env_def)
  have all_fail: "db_fails ?fs s" for s
    by (simp add: failing_store_def)
  have cred: "?cred \<noteq> JUndefined" "?cred \<noteq> JNull"
      "truthy (js_prop ?cred ''username'')" "truthy (js_prop ?cred ''password'')"
    and root: "?root \<noteq> JUndefined" "?root \<noteq> JNull"
      "truthy (js_prop ?root ''username'')" "truthy (js_prop ?root ''password'')"
    by (simp_all add: credentials_def)
  have sess: "demo_session \<noteq> None" by (simp add: demo_session_def)
  have hash: "bcrypt_hash ?fw (js_prop ?cred ''password'') = Inr ''hash:pw''"
    by (simp add: failing_writes_def demo_env_def credentials_def bcrypt_hash_def)
  have ins: "db_fails ?fw (InsertAdmin (js_prop ?cred ''username'') ''hash:pw'')"
    by (simp add: failing_writes_def)
  have ev: "webhook_event ?fe wrapped_event None = Inr ?e"
    by (simp add: webhook_event_def STRIPE_WEBHOOK_SECRET_def failing_writes_def
        JSON_parse_def wrapped_event_def demo_env_parsing_def demo_env_def)
  have ev2: "get_prop ?e ''type'' = Inr (JStr ''payment_intent.succeeded'')"
      "get_prop (js_prop ?e ''data'') ''object'' = Inr (JObj [(''id'', JStr ''pi_2'')])"
      "get_prop (JObj [(''id'', JStr ''pi_2'')]) ''id'' = Inr (JStr ''pi_2'')"
    by (simp_all add: demo_event_def get_prop_def)
  have upd: "db_fails ?fe (UpdateStatusByIntent ''succeeded'' (JStr ''pi_2''))"
    by (simp add: failing_writes_def)
  have D: "db demo_world = demo_db"
    by (simp add: demo_world_def)
  note T = store_failure_surfacing
  note k2 = conjunct2
  have r1: "fst (create_payment_intent ?fs ?don demo_world) = error_handler db_error"
    by (rule T [where rt = ?fs and req_body = ?don and n = "Fin 10"
          and paymentIntent = ?p and w = demo_world, THEN conjunct1, THEN mp])
      (intro conjI don amt str all_fail)
  have r2: "fst (check_setup ?fs demo_world) = error_handler db_error"
    by (rule T [where rt = ?fs and w = demo_world, THEN k2, THEN conjunct1, THEN mp])
      (rule all_fail)
  have r3: "fst (register ?fs ?cred None demo_world) = error_handler db_error"
    by (rule T [where rt = ?fs and cred = ?cred and sess = None and w = demo_world,
          THEN k2, THEN k2, THEN conjunct1, THEN mp])
      (intro conjI cred disjI1 all_fail)
  have r4: "fst (register ?fw ?cred demo_session demo_world) = error_handler db_error"
    by (rule T [where rt = ?fw and cred = ?cred and sess = demo_session
          and hash = "''hash:pw''" and w = demo_world,
          THEN k2, THEN k2, THEN conjunct1, THEN mp])
      (intro conjI cred disjI2 disjI1 sess hash ins)
  have r5: "fst (login ?fs ?root None demo_world) = error_handler db_error"
    by (rule T [where rt = ?fs and cred = ?root and sess = None and w = demo_world,
          THEN k2, THEN k2, THEN k2, THEN conjunct1, THEN mp])
      (intro conjI root all_fail)
  have r6: "fst (list_donations ?fs demo_session demo_world) = error_handler db_error"
    by (rule T [where rt = ?fs and sess = demo_session and w = demo_world,
          THEN k2, THEN k2, THEN k2, THEN k2, THEN conjunct1, THEN mp])
      (intro conjI sess all_fail)
  have r7: "fst (add_user ?fw ?cred demo_session demo_world) = error_handler db_error"
    by (rule T [where rt = ?fw and cred = ?cred and sess = demo_session
          and hash = "''hash:pw''" and w = demo_world,
          THEN k2, THEN k2, THEN k2, THEN k2, THEN k2, THEN conjunct1, THEN mp])
      (intro conjI cred sess hash ins)
  have r8: "status (error_handler db_error) = 500"
    by (rule T [THEN k2, THEN k2, THEN k2, THEN k2, THEN k2, THEN k2, THEN conjunct1])
  have r9: "fst (webhook ?fe wrapped_event None demo_world) = received
            \<and> status received = 200
            \<and> db (snd (webhook ?fe wrapped_event None demo_world)) = db demo_world"
    by (rule T [where rt = ?fe and payload = wrapped_event and signature = None
          and event = ?e and obj = "JObj [(''id'', JStr ''pi_2'')]" and pid = "JStr ''pi_2''"
          and w = demo_world,
          THEN k2, THEN k2, THEN k2, THEN k2, THEN k2, THEN k2, THEN k2, THEN mp])
      (intro conjI ev ev2 upd)
  have r9': "db (snd (webhook ?fe wrapped_event None demo_world)) = demo_db"
    using r9 by (simp only: D)
  show ?thesis
    by (intro conjI r1 r2 r3 r4 r5 r6 r7 r8 conjunct1 [OF r9] r9')
qed

end
